theory Spec2Isabelle
  imports Complex_Main "HOL-Library.Multiset"
begin

section \<open>Numbers and easing curves\<close>

text \<open>
  The script computes with JavaScript numbers. They are modelled as reals here
  (rounding is not modelled); the exceptional values of a division by zero are
  treated apart, in the section on the progress computation.

  Every animation of the script has the same tick body:
  \<^verbatim>\<open>
    const elapsed = Date.now() - startTime;
    const progress = Math.min(elapsed / duration, 1);
    const easedProgress = ...;            // one of the curves below
    x = start + (target - start) * easedProgress;
  \<close>
\<close>

definition progress :: "real \<Rightarrow> real \<Rightarrow> real" where
  \<comment> \<open>\<^verbatim>\<open>Math.min(elapsed / duration, 1)\<close>\<close>
  "progress elapsed duration = min (elapsed / duration) 1"

definition easeOutCubic :: "real \<Rightarrow> real" where
  \<comment> \<open>\<^verbatim>\<open>1 - Math.pow(1 - progress, 3)\<close> (updateCardPosition, appearAnimation, moveToPosition)\<close>
  "easeOutCubic p = 1 - (1 - p) ^ 3"

definition easeOutQuad :: "real \<Rightarrow> real" where
  \<comment> \<open>\<^verbatim>\<open>1 - Math.pow(1 - progress, 2)\<close> (updateScale, updateFlip)\<close>
  "easeOutQuad p = 1 - (1 - p) ^ 2"

definition easeInOutQuad :: "real \<Rightarrow> real" where
  \<comment> \<open>\<^verbatim>\<open>progress < 0.5 ? 2 * progress * progress : 1 - Math.pow(-2 * progress + 2, 2) / 2\<close>
      (updateCardRotation)\<close>
  "easeInOutQuad p = (if p < 0.5 then 2 * p * p else 1 - (- 2 * p + 2) ^ 2 / 2)"

definition easeInOutCubic :: "real \<Rightarrow> real" where
  \<comment> \<open>\<^verbatim>\<open>progress < 0.5 ? 4 * progress * progress * progress : 1 - Math.pow(-2 * progress + 2, 3) / 2\<close>
      (flyAway of flyAwayCard)\<close>
  "easeInOutCubic p = (if p < 0.5 then 4 * p * p * p else 1 - (- 2 * p + 2) ^ 3 / 2)"

definition linearEase :: "real \<Rightarrow> real" where
  \<comment> \<open>\<^verbatim>\<open>const easedProgress = progress;\<close> (flyAway of resetTarotReading)\<close>
  "linearEase p = p"

definition labelEasedProgress :: "real \<Rightarrow> real" where
  \<comment> \<open>\<^verbatim>\<open>Math.sin(progress * Math.PI / 2)\<close>\<close>
  "labelEasedProgress p = sin (p * pi / 2)"

definition labelOscillation :: "real \<Rightarrow> real" where
  \<comment> \<open>\<^verbatim>\<open>0.2 * Math.sin(progress * 10) * (1 - progress)\<close>\<close>
  "labelOscillation p = 0.2 * sin (p * 10) * (1 - p)"

definition labelOpacity :: "real \<Rightarrow> real" where
  \<comment> \<open>\<^verbatim>\<open>material.opacity = easedProgress + oscillation;\<close> (updateLabelOpacity)\<close>
  "labelOpacity p = labelEasedProgress p + labelOscillation p"

definition tweenValue :: "(real \<Rightarrow> real) \<Rightarrow> real \<Rightarrow> real \<Rightarrow> real \<Rightarrow> real \<Rightarrow> real" where
  \<comment> \<open>\<^verbatim>\<open>start + (target - start) * easedProgress\<close>, with the progress of the tick\<close>
  "tweenValue ease start target duration elapsed =
     start + (target - start) * ease (progress elapsed duration)"


type_synonym vec3 = "real \<times> real \<times> real"


section \<open>The progress computation on JavaScript numbers\<close>

text \<open>
  A division by zero does not raise in JavaScript: it yields \<^verbatim>\<open>NaN\<close> or an infinity,
  which the rest of the tick then computes with. The values a number can take are
  modelled by a datatype (the reals stand for the finite numbers, without rounding and
  without a negative zero), with the operations of the tick body as the language
  defines them on the exceptional values.
\<close>

datatype jsnum = Number real | PosInfinity | NegInfinity | NaN

fun jsNeg :: "jsnum \<Rightarrow> jsnum" where
  "jsNeg (Number a) = Number (- a)"
| "jsNeg PosInfinity = NegInfinity"
| "jsNeg NegInfinity = PosInfinity"
| "jsNeg NaN = NaN"

fun jsAdd :: "jsnum \<Rightarrow> jsnum \<Rightarrow> jsnum" where
  "jsAdd NaN _ = NaN"
| "jsAdd _ NaN = NaN"
| "jsAdd (Number a) (Number b) = Number (a + b)"
| "jsAdd PosInfinity NegInfinity = NaN"
| "jsAdd NegInfinity PosInfinity = NaN"
| "jsAdd PosInfinity _ = PosInfinity"
| "jsAdd NegInfinity _ = NegInfinity"
| "jsAdd _ b = b"

definition jsSub :: "jsnum \<Rightarrow> jsnum \<Rightarrow> jsnum" where
  "jsSub a b = jsAdd a (jsNeg b)"

definition jsSign :: "jsnum \<Rightarrow> real" where
  \<comment> \<open>the sign of a number that is not \<^verbatim>\<open>NaN\<close>\<close>
  "jsSign a = (case a of Number r \<Rightarrow> sgn r | PosInfinity \<Rightarrow> 1 | NegInfinity \<Rightarrow> - 1 | NaN \<Rightarrow> 0)"

definition jsInfinity :: "real \<Rightarrow> jsnum" where
  \<comment> \<open>the infinity of a sign; no sign gives \<^verbatim>\<open>NaN\<close> (\<^verbatim>\<open>0 * Infinity\<close>, \<^verbatim>\<open>0 / 0\<close>)\<close>
  "jsInfinity s = (if 0 < s then PosInfinity else if s < 0 then NegInfinity else NaN)"

fun jsMul :: "jsnum \<Rightarrow> jsnum \<Rightarrow> jsnum" where
  "jsMul NaN _ = NaN"
| "jsMul _ NaN = NaN"
| "jsMul (Number a) (Number b) = Number (a * b)"
| "jsMul a b = jsInfinity (jsSign a * jsSign b)"

fun jsDiv :: "jsnum \<Rightarrow> jsnum \<Rightarrow> jsnum" where
  "jsDiv NaN _ = NaN"
| "jsDiv _ NaN = NaN"
| "jsDiv (Number a) (Number b) = (if b = 0 then jsInfinity (sgn a) else Number (a / b))"
| "jsDiv (Number a) _ = Number 0"
| "jsDiv a (Number b) = jsInfinity (jsSign a * (if b < 0 then - 1 else 1))"
| "jsDiv _ _ = NaN"

fun jsLess :: "jsnum \<Rightarrow> jsnum \<Rightarrow> bool" where
  \<comment> \<open>\<^verbatim>\<open>a < b\<close>: false as soon as one side is \<^verbatim>\<open>NaN\<close>\<close>
  "jsLess NaN _ = False"
| "jsLess _ NaN = False"
| "jsLess (Number a) (Number b) = (a < b)"
| "jsLess NegInfinity NegInfinity = False"
| "jsLess NegInfinity _ = True"
| "jsLess _ PosInfinity = True"
| "jsLess _ _ = False"

fun jsMin :: "jsnum \<Rightarrow> jsnum \<Rightarrow> jsnum" where
  \<comment> \<open>\<^verbatim>\<open>Math.min(a, b)\<close>: \<^verbatim>\<open>NaN\<close> as soon as one argument is\<close>
  "jsMin NaN _ = NaN"
| "jsMin _ NaN = NaN"
| "jsMin a b = (if jsLess b a then b else a)"

fun jsPow :: "jsnum \<Rightarrow> nat \<Rightarrow> jsnum" where
  \<comment> \<open>\<^verbatim>\<open>Math.pow(a, n)\<close> for the exponents of the script, 2 and 3\<close>
  "jsPow a 0 = Number 1"
| "jsPow a (Suc n) = jsMul a (jsPow a n)"

definition jsProgress :: "jsnum \<Rightarrow> jsnum \<Rightarrow> jsnum" where
  \<comment> \<open>\<^verbatim>\<open>Math.min(elapsed / duration, 1)\<close>\<close>
  "jsProgress elapsed duration = jsMin (jsDiv elapsed duration) (Number 1)"

definition jsEaseOutCubic :: "jsnum \<Rightarrow> jsnum" where
  \<comment> \<open>\<^verbatim>\<open>1 - Math.pow(1 - progress, 3)\<close>\<close>
  "jsEaseOutCubic p = jsSub (Number 1) (jsPow (jsSub (Number 1) p) 3)"

definition jsUpdateCardPosition :: "jsnum \<Rightarrow> jsnum \<Rightarrow> jsnum \<times> bool" where
  \<comment> \<open>The tick of updateCardPosition on JavaScript numbers, with \<^verbatim>\<open>targetY = 0\<close> and
      \<^verbatim>\<open>duration = 600\<close> as in the script: the value written to \<^verbatim>\<open>position.y\<close>, and whether
      another frame is requested (\<^verbatim>\<open>progress < 1\<close>; otherwise the tick takes its completion
      branch).\<close>
  "jsUpdateCardPosition startY elapsed =
     (let targetY = Number 0;
          duration = Number 600;
          progress = jsProgress elapsed duration;
          easedProgress = jsEaseOutCubic progress
      in (jsAdd startY (jsMul (jsSub targetY startY) easedProgress),
          jsLess progress (Number 1)))"

definition flyDuration :: "real \<Rightarrow> real" where
  \<comment> \<open>\<^verbatim>\<open>const flyDuration = 500 + Math.random() * 200;\<close>\<close>
  "flyDuration r = 500 + r * 200"

definition scriptDurations :: "real list" where
  \<comment> \<open>the constant durations of the script's tweens, in ms: gsapLikeScale; the entry, the
      flip back and the move to position; the flip and the flip to the back; the label; the
      appearance of the cosmic shuffle\<close>
  "scriptDurations = [200, 600, 800, 1000, 3000]"

section \<open>Scene objects, content blocks and the random source\<close>

text \<open>
  A card is a \<^verbatim>\<open>THREE.Group\<close> whose \<^verbatim>\<open>userData\<close> carries the flags of the reading. The
  record keeps the fields the modelled code reads or writes; meshes, materials'
  pixels, canvases and the DOM are not modelled. A texture is named by its URL.
  \<^verbatim>\<open>Math.random()\<close> is a sequence of numbers, \<open>rnd k\<close> being the value of call number
  \<open>k\<close>; the language guarantees \<open>0 \<le> rnd k < 1\<close>.
\<close>

record cardGroup =
  gid :: nat                       \<comment> \<open>the \<open>i\<close> of \<^verbatim>\<open>name = "CardGroup_" + i\<close>\<close>
  position_y :: real               \<comment> \<open>\<^verbatim>\<open>position.y\<close>\<close>
  rotation_x :: real               \<comment> \<open>\<^verbatim>\<open>rotation.x\<close>\<close>
  scale :: vec3                    \<comment> \<open>\<^verbatim>\<open>scale\<close>\<close>
  selected :: bool                 \<comment> \<open>\<^verbatim>\<open>userData.selected\<close>\<close>
  revealed :: bool                 \<comment> \<open>\<^verbatim>\<open>userData.revealed\<close>\<close>
  positionIndex :: "nat option"    \<comment> \<open>\<^verbatim>\<open>userData.positionIndex\<close>\<close>
  label :: "string option"         \<comment> \<open>\<^verbatim>\<open>userData.label\<close>\<close>
  arenaUrl :: "nat option"         \<comment> \<open>\<^verbatim>\<open>userData.arenaUrl\<close>, by the id of the block it links to\<close>
  targetTexture :: "string option" \<comment> \<open>\<^verbatim>\<open>userData.targetTexture\<close>\<close>
  frontMap :: "string option"      \<comment> \<open>\<^verbatim>\<open>cardMesh.material[4].map\<close>\<close>

record block =
  blockId :: nat                        \<comment> \<open>\<^verbatim>\<open>content.id\<close>\<close>
  imageDisplayUrl :: "string option"    \<comment> \<open>\<^verbatim>\<open>content.image.display.url\<close>; \<open>None\<close> when a link
                                            of that chain is missing\<close>

type_synonym cardData = "block \<times> real"   \<comment> \<open>\<^verbatim>\<open>{...content, position: Math.random()}\<close>\<close>

datatype jserror = TypeError | InvalidSearchData | FetchError

definition hasValidImage :: "block \<Rightarrow> bool" where
  \<comment> \<open>\<^verbatim>\<open>content.image && content.image.display && content.image.display.url\<close>:
      an empty string is falsy\<close>
  "hasValidImage content = (case imageDisplayUrl content of None \<Rightarrow> False | Some u \<Rightarrow> u \<noteq> [])"

definition randomIndex :: "real \<Rightarrow> nat \<Rightarrow> int" where
  \<comment> \<open>\<^verbatim>\<open>Math.floor(Math.random() * xs.length)\<close>\<close>
  "randomIndex r n = \<lfloor>r * real n\<rfloor>"

definition jsIndex :: "'a list \<Rightarrow> int \<Rightarrow> 'a option" where
  \<comment> \<open>\<^verbatim>\<open>xs[i]\<close>: \<^verbatim>\<open>undefined\<close> out of range\<close>
  "jsIndex xs i = (if 0 \<le> i \<and> i < int (length xs) then Some (xs ! nat i) else None)"

definition jsSplice1 :: "int \<Rightarrow> 'a list \<Rightarrow> 'a option \<times> 'a list" where
  \<comment> \<open>\<^verbatim>\<open>xs.splice(start, 1)[0]\<close> and the array left: a negative start counts from the
      end, a start past the end removes nothing\<close>
  "jsSplice1 start xs =
     (let n = int (length xs);
          a = (if start < 0 then max (n + start) 0 else min start n)
      in if a < n then (Some (xs ! nat a), take (nat a) xs @ drop (Suc (nat a)) xs)
         else (None, xs))"

section \<open>Selecting the four cards of the cosmic shuffle\<close>

text \<open>
  \<^verbatim>\<open>selectAndPlaceFourCards\<close> starts from \<^verbatim>\<open>cardsToRemove = [...shuffleCards]\<close> and runs
  \<^verbatim>\<open>
    for (let i = 0; i < numCardsToKeep; i++) {
      if (cardsToRemove.length > 0) {
        const randomIndex = Math.floor(Math.random() * cardsToRemove.length);
        const selectedCard = cardsToRemove.splice(randomIndex, 1)[0];
        selectedCard.userData.positionIndex = i;
        selectedCard.userData.selected = true;
        selectedCard.scale.set(1.5, 1.5, 1.5);
        ...
        cardsToKeep.push(selectedCard);
      } }
  \<close>
  \<open>selectLoop rnd k i m\<close> is the loop at index \<open>i\<close> with \<open>m\<close> iterations left, \<open>k\<close> calls
  of \<^verbatim>\<open>Math.random()\<close> made so far. A \<^verbatim>\<open>selectedCard\<close> that is \<^verbatim>\<open>undefined\<close> raises a
  \<^verbatim>\<open>TypeError\<close> at \<^verbatim>\<open>selectedCard.userData\<close>.
\<close>

fun selectLoop ::
  "(nat \<Rightarrow> real) \<Rightarrow> nat \<Rightarrow> nat \<Rightarrow> nat \<Rightarrow> cardGroup list \<Rightarrow> cardGroup list \<Rightarrow>
     jserror + (cardGroup list \<times> cardGroup list)" where
  "selectLoop rnd k i 0 cardsToKeep cardsToRemove = Inr (cardsToKeep, cardsToRemove)"
| "selectLoop rnd k i (Suc m) cardsToKeep cardsToRemove =
     (if length cardsToRemove > 0 then
        (case jsSplice1 (randomIndex (rnd k) (length cardsToRemove)) cardsToRemove of
           (None, _) \<Rightarrow> Inl TypeError
         | (Some selectedCard, rest) \<Rightarrow>
             selectLoop rnd (Suc k) (Suc i) m
               (cardsToKeep @
                  [selectedCard\<lparr>positionIndex := Some i, selected := True, scale := (1.5, 1.5, 1.5)\<rparr>])
               rest)
      else selectLoop rnd k (Suc i) m cardsToKeep cardsToRemove)"

definition selectCards ::
  "nat \<Rightarrow> (nat \<Rightarrow> real) \<Rightarrow> nat \<Rightarrow> cardGroup list \<Rightarrow> jserror + (cardGroup list \<times> cardGroup list)" where
  \<comment> \<open>the selection of \<^verbatim>\<open>numCardsToKeep\<close> cards: \<^verbatim>\<open>(cardsToKeep, cardsToRemove)\<close> after the loop\<close>
  "selectCards numCardsToKeep rnd k shuffleCards = selectLoop rnd k 0 numCardsToKeep [] shuffleCards"

definition selectAndPlaceFourCards ::
  "(nat \<Rightarrow> real) \<Rightarrow> nat \<Rightarrow> cardGroup list \<Rightarrow> jserror + (cardGroup list \<times> cardGroup list)" where
  \<comment> \<open>\<^verbatim>\<open>const numCardsToKeep = 4;\<close>\<close>
  "selectAndPlaceFourCards = selectCards 4"

definition shuffleCard :: "nat \<Rightarrow> cardGroup" where
  \<comment> \<open>card \<open>i\<close> as createShuffleAnimation makes it: scale 0.01, no \<^verbatim>\<open>userData\<close> yet
      (its place on the sphere is not modelled)\<close>
  "shuffleCard i =
     \<lparr>gid = i, position_y = 0, rotation_x = 0, scale = (0.01, 0.01, 0.01), selected = False,
      revealed = False, positionIndex = None, label = None, arenaUrl = None,
      targetTexture = None, frontMap = None\<rparr>"

definition createShuffleCards :: "nat \<Rightarrow> cardGroup list" where
  \<comment> \<open>\<^verbatim>\<open>for (let i = 0; i < numShuffleCards; i++) { ... shuffleCards.push(cardGroup); }\<close>\<close>
  "createShuffleCards numShuffleCards = map shuffleCard [0..<numShuffleCards]"


section \<open>Fetching content\<close>

text \<open>
  The network is a function of the request: \<open>net n q\<close> is what request number \<open>n\<close>, for the
  query \<open>q\<close>, comes back with. \<open>SearchData None\<close> is a body without a \<^verbatim>\<open>blocks\<close> array;
  \<open>Failed\<close> is a \<^verbatim>\<open>fetch\<close> or a \<^verbatim>\<open>json()\<close> that rejects. Both functions below are
  \<^verbatim>\<open>async\<close> and call themselves again when the filtered result is empty; a call that
  never settles has the value \<open>None\<close>. The counters returned are the calls of
  \<^verbatim>\<open>Math.random()\<close> and the requests made so far.
\<close>

datatype response = Failed | SearchData "block list option"

definition getRandomQuery :: "string list \<Rightarrow> (nat \<Rightarrow> real) \<Rightarrow> nat \<Rightarrow> string option \<times> nat" where
  \<comment> \<open>\<^verbatim>\<open>if (queries.length === 0) return 'art';
      return queries[Math.floor(Math.random() * queries.length)];\<close>\<close>
  "getRandomQuery queries rnd k =
     (if length queries = 0 then (Some ''art'', k)
      else (jsIndex queries (randomIndex (rnd k) (length queries)), Suc k))"

definition cardsOfBlocks :: "block list \<Rightarrow> (nat \<Rightarrow> real) \<Rightarrow> nat \<Rightarrow> cardData list \<times> nat" where
  \<comment> \<open>\<^verbatim>\<open>blocks.filter(hasValidImage).map(content => ({...content, position: Math.random()}))
      .sort((a, b) => a.position - b.position)\<close>\<close>
  "cardsOfBlocks blocks rnd k =
     (let valid = filter hasValidImage blocks
      in (sort_key snd (zip valid (map rnd [k..<k + length valid])), k + length valid))"

partial_function (option) fetchRandomContent ::
  "string list \<Rightarrow> (nat \<Rightarrow> string option \<Rightarrow> response) \<Rightarrow> (nat \<Rightarrow> real) \<Rightarrow> nat \<Rightarrow> nat \<Rightarrow>
     (jserror + (cardData list \<times> nat \<times> nat)) option" where
  "fetchRandomContent queries net rnd k n =
     (case getRandomQuery queries rnd k of (randomQuery, k1) \<Rightarrow>
        (case net n randomQuery of
           Failed \<Rightarrow> Some (Inl FetchError)
         | SearchData None \<Rightarrow> Some (Inl InvalidSearchData)
         | SearchData (Some blocks) \<Rightarrow>
             (case cardsOfBlocks blocks rnd k1 of (cards, k2) \<Rightarrow>
                if length cards = 0 then fetchRandomContent queries net rnd k2 (Suc n)
                else Some (Inr (cards, k2, Suc n)))))"

partial_function (option) fetchSingleCardContent ::
  "string list \<Rightarrow> (nat \<Rightarrow> string option \<Rightarrow> response) \<Rightarrow> (nat \<Rightarrow> real) \<Rightarrow> cardData list \<Rightarrow> nat \<Rightarrow> nat \<Rightarrow>
     (jserror + (cardData option \<times> cardData list \<times> nat \<times> nat)) option" where
  "fetchSingleCardContent queries net rnd cards k n =
     (if length cards > 0 then
        Some (Inr (jsIndex cards (randomIndex (rnd k) (length cards)), cards, Suc k, n))
      else
        (case getRandomQuery queries rnd k of (randomQuery, k1) \<Rightarrow>
           (case net n randomQuery of
              Failed \<Rightarrow> Some (Inl FetchError)
            | SearchData None \<Rightarrow> Some (Inl InvalidSearchData)
            | SearchData (Some blocks) \<Rightarrow>
                (case cardsOfBlocks blocks rnd k1 of (cards', k2) \<Rightarrow>
                   if length cards' = 0 then fetchSingleCardContent queries net rnd cards' k2 (Suc n)
                   else Some (Inr (jsIndex cards' (randomIndex (rnd k2) (length cards')),
                                   cards', Suc k2, Suc n))))))"

definition emptyResult :: "response \<Rightarrow> bool" where
  \<comment> \<open>a well-formed answer with no block that has a valid image\<close>
  "emptyResult r = (case r of SearchData (Some blocks) \<Rightarrow> filter hasValidImage blocks = [] | _ \<Rightarrow> False)"

section \<open>The reading: state, callbacks and the event loop\<close>

text \<open>
  The script runs on the browser's event loop: a click handler, a timer callback, an
  animation-frame callback or a promise reaction runs to its end before the next one
  starts. The state below holds the script's globals, the pending callbacks and the
  environment (clock, random source, network). A pending callback is a closure; the
  datatype \<open>task\<close> names each closure of the modelled code with the variables it
  captured. Cards are named by their index in \<^verbatim>\<open>cardMeshes\<close>; the model covers one reading,
  during which \<^verbatim>\<open>cardMeshes\<close> is not replaced.

  \<open>completedTweens\<close> is not a variable of the script: it records every run of a tick's
  completion branch (the \<^verbatim>\<open>else\<close> of \<^verbatim>\<open>if (progress < 1)\<close>), so that theorems can count them.
\<close>

datatype tween = EntryTween nat | FlipTween nat | FlipBackTween nat

datatype task =
    EntryTimeout nat
      \<comment> \<open>animateCardsEntry: the \<^verbatim>\<open>setTimeout\<close> callback of card \<open>i\<close>\<close>
  | UpdateCardPosition nat real nat
      \<comment> \<open>animateCardsEntry: \<^verbatim>\<open>updateCardPosition\<close> of card \<open>i\<close>, with \<^verbatim>\<open>startY\<close>, \<^verbatim>\<open>startTime\<close>\<close>
  | UpdateCardRotation nat real nat "string option" "string option" bool
      \<comment> \<open>animateCardFlip: \<^verbatim>\<open>updateCardRotation\<close> of a card, with \<^verbatim>\<open>startRotX\<close>, \<^verbatim>\<open>startTime\<close>,
          \<^verbatim>\<open>targetTexture\<close>, \<^verbatim>\<open>label\<close>, \<^verbatim>\<open>textureChanged\<close>\<close>
  | UpdateLabelOpacity nat nat
      \<comment> \<open>animateLabelAppearance: \<^verbatim>\<open>updateLabelOpacity\<close> of a material, with \<^verbatim>\<open>startTime\<close>\<close>
  | AnimateLabelAppearance nat
      \<comment> \<open>createArenaLinkIndicator: the \<^verbatim>\<open>setTimeout\<close> callback, for the icon's material\<close>
  | HighlightResetButton
      \<comment> \<open>flipCard: the \<^verbatim>\<open>setTimeout\<close> callback after the third flip\<close>
  | ResetCardRotation nat real nat
      \<comment> \<open>resetTarotReading: \<^verbatim>\<open>updateCardRotation\<close> of a card, with \<^verbatim>\<open>startRotX\<close>, \<^verbatim>\<open>startTime\<close>;
          also its \<^verbatim>\<open>setTimeout\<close> callback, which only calls it\<close>

record world =
  now :: nat                                   \<comment> \<open>\<^verbatim>\<open>Date.now()\<close>, in ms\<close>
  random :: "nat \<Rightarrow> real"                      \<comment> \<open>the values of \<^verbatim>\<open>Math.random()\<close>\<close>
  randomCalls :: nat
  network :: "nat \<Rightarrow> string option \<Rightarrow> response"
  requests :: nat
  queries :: "string list"
  cards :: "cardData list"
  revealedCardCount :: int
  cardMeshes :: "cardGroup list"
  animating :: bool
  materials :: "real list"                     \<comment> \<open>the opacity of each label and icon material\<close>
  resetContainerVisible :: bool                \<comment> \<open>class \<^verbatim>\<open>visible\<close> of \<^verbatim>\<open>.reset-container\<close>\<close>
  resetButtonHighlight :: bool                 \<comment> \<open>class \<^verbatim>\<open>highlight\<close> of \<^verbatim>\<open>#reset-button\<close>\<close>
  timers :: "(nat \<times> task) list"               \<comment> \<open>\<^verbatim>\<open>setTimeout\<close> callbacks with the time they are due\<close>
  frameRequests :: "task list"                 \<comment> \<open>\<^verbatim>\<open>requestAnimationFrame\<close> callbacks\<close>
  pendingFetches :: "(nat \<times> string option \<times> nat \<times> string) list"
      \<comment> \<open>requests of fetchSingleCardContent in flight: request number, query, and the card
          and label of the flipCard that waits for it\<close>
  pendingTextures :: "(nat \<times> string \<times> string) list"
      \<comment> \<open>loadCardTexture in flight: card, label, URL\<close>
  resetPromises :: "nat option"
      \<comment> \<open>resetTarotReading: the promises of the flip back that are not resolved yet\<close>
  flyAwayStarted :: bool
      \<comment> \<open>resetTarotReading: the reaction to \<^verbatim>\<open>Promise.all(promises)\<close> has run\<close>
  completedTweens :: "tween list"

definition MAX_REVEALED_CARDS :: int where
  "MAX_REVEALED_CARDS = 3"

definition setTimeout :: "task \<Rightarrow> nat \<Rightarrow> world \<Rightarrow> world" where
  "setTimeout callback delay w = w\<lparr>timers := timers w @ [(now w + delay, callback)]\<rparr>"

definition requestAnimationFrame :: "task \<Rightarrow> world \<Rightarrow> world" where
  "requestAnimationFrame callback w = w\<lparr>frameRequests := frameRequests w @ [callback]\<rparr>"

definition updateCard :: "nat \<Rightarrow> (cardGroup \<Rightarrow> cardGroup) \<Rightarrow> world \<Rightarrow> world" where
  \<comment> \<open>a write to the fields of card \<open>i\<close>\<close>
  "updateCard i f w = w\<lparr>cardMeshes := (cardMeshes w)[i := f (cardMeshes w ! i)]\<rparr>"

definition elapsedSince :: "nat \<Rightarrow> world \<Rightarrow> real" where
  \<comment> \<open>\<^verbatim>\<open>Date.now() - startTime\<close>\<close>
  "elapsedSince startTime w = real (now w) - real startTime"

definition highlightResetButton :: "world \<Rightarrow> world" where
  "highlightResetButton w = w\<lparr>resetContainerVisible := True, resetButtonHighlight := True\<rparr>"

subsection \<open>The label and its appearance\<close>

definition updateLabelOpacity :: "nat \<Rightarrow> nat \<Rightarrow> world \<Rightarrow> world" where
  \<comment> \<open>\<^verbatim>\<open>duration = 1000\<close>; the tick has no completion branch\<close>
  "updateLabelOpacity material startTime w =
     (let elapsed = elapsedSince startTime w;
          w1 = w\<lparr>materials := (materials w)[material := labelOpacity (progress elapsed 1000)]\<rparr>
      in if progress elapsed 1000 < 1
         then requestAnimationFrame (UpdateLabelOpacity material startTime) w1
         else w1)"

definition animateLabelAppearance :: "nat \<Rightarrow> world \<Rightarrow> world" where
  "animateLabelAppearance material w = updateLabelOpacity material (now w) w"

definition createArenaLinkIndicator :: "nat \<Rightarrow> world \<Rightarrow> world" where
  \<comment> \<open>a new material with opacity 0, which appears after 500 ms\<close>
  "createArenaLinkIndicator i w =
     (let material = length (materials w)
      in setTimeout (AnimateLabelAppearance material) 500 (w\<lparr>materials := materials w @ [0]\<rparr>))"

definition createLabelForCard :: "nat \<Rightarrow> string \<Rightarrow> world \<Rightarrow> world" where
  \<comment> \<open>a new material with opacity 0, which appears at once; then the link icon when the card
      has an \<^verbatim>\<open>arenaUrl\<close> (the meshes themselves are not modelled)\<close>
  "createLabelForCard i text w =
     (let material = length (materials w);
          w1 = animateLabelAppearance material (w\<lparr>materials := materials w @ [0]\<rparr>)
      in if arenaUrl (cardMeshes w1 ! i) \<noteq> None then createArenaLinkIndicator i w1 else w1)"

subsection \<open>Flipping a card\<close>

definition flipCompleted :: "nat \<Rightarrow> string option \<Rightarrow> world \<Rightarrow> world" where
  \<comment> \<open>the completion branch of the flip's tick:
      \<^verbatim>\<open>animating = false; if (label) { createLabelForCard(cardGroup, label); }\<close>\<close>
  "flipCompleted i lbl w =
     (let w1 = w\<lparr>animating := False, completedTweens := completedTweens w @ [FlipTween i]\<rparr>
      in case lbl of
           Some text \<Rightarrow> if text \<noteq> [] then createLabelForCard i text w1 else w1
         | None \<Rightarrow> w1)"

definition updateCardRotation ::
  "nat \<Rightarrow> real \<Rightarrow> nat \<Rightarrow> string option \<Rightarrow> string option \<Rightarrow> bool \<Rightarrow> world \<Rightarrow> world" where
  \<comment> \<open>the tick of animateCardFlip: \<^verbatim>\<open>targetRotX = 0\<close>, \<^verbatim>\<open>duration = 800\<close>; the texture is
      put on the front face once, at the first tick from half of the progress on\<close>
  "updateCardRotation i startRotX startTime texture lbl textureChanged w =
     (let elapsed = elapsedSince startTime w;
          p = progress elapsed 800;
          w1 = updateCard i (\<lambda>c. c\<lparr>rotation_x := tweenValue easeInOutQuad startRotX 0 800 elapsed\<rparr>) w;
          change = (p \<ge> 0.5 \<and> \<not> textureChanged \<and> texture \<noteq> None);
          w2 = (if change then updateCard i (\<lambda>c. c\<lparr>frontMap := texture\<rparr>) w1 else w1)
      in if p < 1
         then requestAnimationFrame
                (UpdateCardRotation i startRotX startTime texture lbl (textureChanged \<or> change)) w2
         else flipCompleted i lbl w2)"

definition animateCardFlip :: "nat \<Rightarrow> world \<Rightarrow> world" where
  "animateCardFlip i w =
     (let w1 = w\<lparr>animating := True\<rparr>;
          c = cardMeshes w1 ! i
      in updateCardRotation i (rotation_x c) (now w1) (targetTexture c) (label c) False w1)"

definition flipFailed :: "nat \<Rightarrow> world \<Rightarrow> world" where
  \<comment> \<open>the three failure branches of flipCard (no valid image, texture error, fetch error):
      \<^verbatim>\<open>revealed = false; selected = false; revealedCardCount--;\<close>\<close>
  "flipFailed i w =
     (updateCard i (\<lambda>c. c\<lparr>revealed := False, selected := False\<rparr>) w)
       \<lparr>revealedCardCount := revealedCardCount w - 1\<rparr>"

definition cardContentFetched :: "nat \<Rightarrow> string \<Rightarrow> cardData option \<Rightarrow> world \<Rightarrow> world" where
  \<comment> \<open>flipCard: the reaction to the card data that fetchSingleCardContent resolved with\<close>
  "cardContentFetched i lbl cardData w =
     (case cardData of
        Some (content, position) \<Rightarrow>
          (if hasValidImage content then
             (updateCard i (\<lambda>c. c\<lparr>arenaUrl := Some (blockId content)\<rparr>) w)
               \<lparr>pendingTextures := pendingTextures w @ [(i, lbl, the (imageDisplayUrl content))]\<rparr>
           else flipFailed i w)
      | None \<Rightarrow> flipFailed i w)"

definition textureLoaded :: "nat \<Rightarrow> string \<Rightarrow> string \<Rightarrow> world \<Rightarrow> world" where
  \<comment> \<open>flipCard: the reaction to the texture that loadCardTexture resolved with\<close>
  "textureLoaded i lbl url w =
     (let w1 = updateCard i (\<lambda>c. c\<lparr>targetTexture := Some url, label := Some lbl\<rparr>) w;
          w2 = animateCardFlip i w1
      in if revealedCardCount w2 \<ge> MAX_REVEALED_CARDS
         then setTimeout HighlightResetButton 1000 w2 else w2)"

definition requestCardContent :: "nat \<Rightarrow> string \<Rightarrow> world \<Rightarrow> world" where
  \<comment> \<open>fetchSingleCardContent, up to its first \<^verbatim>\<open>await\<close>, on behalf of a flip of card \<open>i\<close>: a card of
      \<^verbatim>\<open>cards\<close> when there are some, a request otherwise\<close>
  "requestCardContent i lbl w =
     (if length (cards w) > 0 then
        cardContentFetched i lbl
          (jsIndex (cards w) (randomIndex (random w (randomCalls w)) (length (cards w))))
          (w\<lparr>randomCalls := Suc (randomCalls w)\<rparr>)
      else
        (case getRandomQuery (queries w) (random w) (randomCalls w) of (randomQuery, k1) \<Rightarrow>
           w\<lparr>randomCalls := k1, requests := Suc (requests w),
             pendingFetches := pendingFetches w @ [(requests w, randomQuery, i, lbl)]\<rparr>))"

definition cardContentResponse :: "nat \<Rightarrow> string option \<Rightarrow> nat \<Rightarrow> string \<Rightarrow> world \<Rightarrow> world" where
  \<comment> \<open>fetchSingleCardContent, from the answer to request \<open>n\<close> on: it throws, asks again, or
      resolves with a card of the new \<^verbatim>\<open>cards\<close>\<close>
  "cardContentResponse n randomQuery i lbl w =
     (case network w n randomQuery of
        Failed \<Rightarrow> flipFailed i w
      | SearchData None \<Rightarrow> flipFailed i w
      | SearchData (Some blocks) \<Rightarrow>
          (case cardsOfBlocks blocks (random w) (randomCalls w) of (cards', k2) \<Rightarrow>
             (let w1 = w\<lparr>cards := cards', randomCalls := k2\<rparr>
              in if length cards' = 0 then requestCardContent i lbl w1
                 else cardContentFetched i lbl
                        (jsIndex cards' (randomIndex (random w1 k2) (length cards')))
                        (w1\<lparr>randomCalls := Suc k2\<rparr>))))"

definition labelFor :: "int \<Rightarrow> string" where
  \<comment> \<open>\<^verbatim>\<open>switch (revealedCardCount)\<close>\<close>
  "labelFor n = (if n = 1 then ''Past'' else if n = 2 then ''Present''
                 else if n = 3 then ''Future'' else [])"

definition flipCard :: "nat \<Rightarrow> world \<Rightarrow> world" where
  \<comment> \<open>\<^verbatim>\<open>cardGroup.userData.cardMesh\<close> is set by createCards for every card, so the check
      \<^verbatim>\<open>if (!cardMesh)\<close> never returns\<close>
  "flipCard cardIndex w =
     (if animating w then w
      else if \<not> cardIndex < length (cardMeshes w) then w
      else if revealed (cardMeshes w ! cardIndex) then w
      else if revealedCardCount w \<ge> MAX_REVEALED_CARDS then highlightResetButton w
      else
        (let w1 = (updateCard cardIndex (\<lambda>c. c\<lparr>selected := True, revealed := True\<rparr>) w)
                    \<lparr>revealedCardCount := revealedCardCount w + 1\<rparr>
         in requestCardContent cardIndex (labelFor (revealedCardCount w1)) w1))"

subsection \<open>Resetting the reading\<close>

text \<open>
  resetTarotReading flips the revealed cards back, each through a promise that its last
  tick resolves, and goes on in the reaction to \<^verbatim>\<open>Promise.all(promises)\<close>. The model follows
  that reaction up to \<^verbatim>\<open>revealedCardCount = 0\<close> and the hiding of the reset container; what
  comes after it in the script (the cards fly away, new content is fetched, new cards are
  created, and only then \<^verbatim>\<open>animating = false\<close>) is outside the model, where the flag stays
  set from then on.
\<close>

definition allFlippedBack :: "world \<Rightarrow> world" where
  \<comment> \<open>the start of the reaction to \<^verbatim>\<open>Promise.all(promises)\<close>\<close>
  "allFlippedBack w =
     w\<lparr>revealedCardCount := 0, resetContainerVisible := False, resetPromises := None,
       flyAwayStarted := True\<rparr>"

definition resolveFlipBack :: "world \<Rightarrow> world" where
  \<comment> \<open>\<^verbatim>\<open>resolve()\<close> of one promise of the flip back; the reaction runs when it was the last\<close>
  "resolveFlipBack w =
     (case resetPromises w of
        None \<Rightarrow> w
      | Some n \<Rightarrow> if n \<le> 1 then allFlippedBack w else w\<lparr>resetPromises := Some (n - 1)\<rparr>)"

definition resetCardRotation :: "nat \<Rightarrow> real \<Rightarrow> nat \<Rightarrow> world \<Rightarrow> world" where
  \<comment> \<open>the tick of the flip back: \<^verbatim>\<open>targetRotX = Math.PI\<close>, \<^verbatim>\<open>duration = 600\<close>\<close>
  "resetCardRotation i startRotX startTime w =
     (let elapsed = elapsedSince startTime w;
          w1 = updateCard i (\<lambda>c. c\<lparr>rotation_x := tweenValue easeInOutQuad startRotX pi 600 elapsed\<rparr>) w
      in if progress elapsed 600 < 1
         then requestAnimationFrame (ResetCardRotation i startRotX startTime) w1
         else resolveFlipBack
                ((updateCard i (\<lambda>c. c\<lparr>revealed := False, selected := False\<rparr>) w1)
                   \<lparr>completedTweens := completedTweens w1 @ [FlipBackTween i]\<rparr>))"

definition resetTarotReading :: "world \<Rightarrow> world" where
  \<comment> \<open>\<^verbatim>\<open>startTime = Date.now()\<close> is taken when the promise is created, not in the
      \<^verbatim>\<open>setTimeout\<close> callback; the delay is \<^verbatim>\<open>cardMeshes.indexOf(cardGroup) * 200\<close>\<close>
  "resetTarotReading w =
     (if animating w then w
      else
        (let w1 = w\<lparr>animating := True, resetButtonHighlight := False\<rparr>;
             flipped = filter (\<lambda>i. revealed (cardMeshes w1 ! i)) [0..<length (cardMeshes w1)];
             w2 = fold (\<lambda>i. setTimeout (ResetCardRotation i (rotation_x (cardMeshes w1 ! i)) (now w1))
                               (i * 200))
                       flipped w1;
             w3 = w2\<lparr>resetPromises := Some (length flipped)\<rparr>
         in if flipped = [] then allFlippedBack w3 else w3))"

subsection \<open>The entry of the cards (first version of the script)\<close>

definition updateCardPosition :: "nat \<Rightarrow> real \<Rightarrow> nat \<Rightarrow> world \<Rightarrow> world" where
  \<comment> \<open>the tick of animateCardsEntry: \<^verbatim>\<open>targetY = 0\<close>, \<^verbatim>\<open>duration = 600\<close>\<close>
  "updateCardPosition i startY startTime w =
     (let elapsed = elapsedSince startTime w;
          w1 = updateCard i (\<lambda>c. c\<lparr>position_y := tweenValue easeOutCubic startY 0 600 elapsed\<rparr>) w
      in if progress elapsed 600 < 1
         then requestAnimationFrame (UpdateCardPosition i startY startTime) w1
         else
           (let w2 = w1\<lparr>completedTweens := completedTweens w1 @ [EntryTween i]\<rparr>
            in if int i = int (length (cardMeshes w2)) - 1 then w2\<lparr>animating := False\<rparr> else w2))"

definition entryTimeout :: "nat \<Rightarrow> world \<Rightarrow> world" where
  \<comment> \<open>\<^verbatim>\<open>startY\<close> and \<^verbatim>\<open>startTime\<close> are taken in the \<^verbatim>\<open>setTimeout\<close> callback\<close>
  "entryTimeout i w = updateCardPosition i (position_y (cardMeshes w ! i)) (now w) w"

definition animateCardsEntry :: "world \<Rightarrow> world" where
  "animateCardsEntry w =
     fold (\<lambda>i w'. setTimeout (EntryTimeout i) (i * 150) (updateCard i (\<lambda>c. c\<lparr>position_y := 5\<rparr>) w'))
          [0..<length (cardMeshes w)] (w\<lparr>animating := True\<rparr>)"

subsection \<open>The event loop\<close>

fun exec :: "task \<Rightarrow> world \<Rightarrow> world" where
  "exec (EntryTimeout i) w = entryTimeout i w"
| "exec (UpdateCardPosition i startY startTime) w = updateCardPosition i startY startTime w"
| "exec (UpdateCardRotation i startRotX startTime texture lbl textureChanged) w =
     updateCardRotation i startRotX startTime texture lbl textureChanged w"
| "exec (UpdateLabelOpacity material startTime) w = updateLabelOpacity material startTime w"
| "exec (AnimateLabelAppearance material) w = animateLabelAppearance material w"
| "exec HighlightResetButton w = highlightResetButton w"
| "exec (ResetCardRotation i startRotX startTime) w = resetCardRotation i startRotX startTime w"

text \<open>
  What the environment does: time passes; the browser runs the animation-frame callbacks
  registered so far (those they register wait for the next frame); it runs the timer
  callback that is due first; the user clicks a card or the reset button; the answer to a
  request arrives; a texture loads or fails to load.
\<close>

datatype event =
    Advance nat | Frame | Timeout | Click nat | ResetClick
  | Response nat | TextureLoaded nat | TextureFailed nat

definition runFrame :: "world \<Rightarrow> world" where
  "runFrame w = fold exec (frameRequests w) (w\<lparr>frameRequests := []\<rparr>)"

definition dueTimer :: "world \<Rightarrow> (nat \<times> task) option" where
  \<comment> \<open>the timer to run next: the earliest due time, the earliest registered among equals\<close>
  "dueTimer w =
     (case sort_key fst (filter (\<lambda>(t, callback). t \<le> now w) (timers w)) of
        [] \<Rightarrow> None | timer # _ \<Rightarrow> Some timer)"

definition runTimeout :: "world \<Rightarrow> world" where
  "runTimeout w =
     (case dueTimer w of
        None \<Rightarrow> w
      | Some (t, callback) \<Rightarrow> exec callback (w\<lparr>timers := remove1 (t, callback) (timers w)\<rparr>))"

definition responseArrives :: "nat \<Rightarrow> world \<Rightarrow> world" where
  "responseArrives n w =
     (case find (\<lambda>(m, randomQuery, i, lbl). m = n) (pendingFetches w) of
        None \<Rightarrow> w
      | Some (m, randomQuery, i, lbl) \<Rightarrow>
          cardContentResponse n randomQuery i lbl
            (w\<lparr>pendingFetches := remove1 (m, randomQuery, i, lbl) (pendingFetches w)\<rparr>))"

definition textureSettles :: "bool \<Rightarrow> nat \<Rightarrow> world \<Rightarrow> world" where
  \<comment> \<open>the first load in flight for card \<open>i\<close> resolves (\<open>ok\<close>) or rejects\<close>
  "textureSettles ok i w =
     (case find (\<lambda>(j, lbl, url). j = i) (pendingTextures w) of
        None \<Rightarrow> w
      | Some (j, lbl, url) \<Rightarrow>
          (let w1 = w\<lparr>pendingTextures := remove1 (j, lbl, url) (pendingTextures w)\<rparr>
           in if ok then textureLoaded i lbl url w1 else flipFailed i w1))"

fun step :: "event \<Rightarrow> world \<Rightarrow> world" where
  "step (Advance dt) w = w\<lparr>now := now w + dt\<rparr>"
| "step Frame w = runFrame w"
| "step Timeout w = runTimeout w"
| "step (Click cardIndex) w = flipCard cardIndex w"
| "step ResetClick w = resetTarotReading w"
| "step (Response n) w = responseArrives n w"
| "step (TextureLoaded i) w = textureSettles True i w"
| "step (TextureFailed i) w = textureSettles False i w"

definition run :: "event list \<Rightarrow> world \<Rightarrow> world" where
  "run events w = fold step events w"

definition passiveEvent :: "event \<Rightarrow> bool" where
  \<comment> \<open>time, frames and timers: no input from the user or the network\<close>
  "passiveEvent e = (case e of Advance dt \<Rightarrow> True | Frame \<Rightarrow> True | Timeout \<Rightarrow> True | _ \<Rightarrow> False)"

definition createCard :: "nat \<Rightarrow> cardGroup" where
  \<comment> \<open>card \<open>i\<close> as createCards makes it: face down (\<^verbatim>\<open>rotation.x = Math.PI\<close>) on the table\<close>
  "createCard i =
     \<lparr>gid = i, position_y = 0, rotation_x = pi, scale = (1, 1, 1), selected = False,
      revealed = False, positionIndex = None, label = None, arenaUrl = None,
      targetTexture = None, frontMap = None\<rparr>"

definition newReading ::
  "(nat \<Rightarrow> real) \<Rightarrow> (nat \<Rightarrow> string option \<Rightarrow> response) \<Rightarrow> string list \<Rightarrow> cardData list \<Rightarrow> world" where
  \<comment> \<open>four cards on the table, nothing revealed, nothing pending\<close>
  "newReading rnd net qs cs =
     \<lparr>now = 0, random = rnd, randomCalls = 0, network = net, requests = 0, queries = qs,
      cards = cs, revealedCardCount = 0,
      cardMeshes = [createCard 0, createCard 1, createCard 2, createCard 3],
      animating = False, materials = [], resetContainerVisible = False,
      resetButtonHighlight = False, timers = [], frameRequests = [], pendingFetches = [],
      pendingTextures = [], resetPromises = None, flyAwayStarted = False,
      completedTweens = []\<rparr>"

subsection \<open>What the theorems observe\<close>

definition revealState :: "world \<Rightarrow> (bool \<times> bool) list \<times> int" where
  \<comment> \<open>the \<^verbatim>\<open>revealed\<close> and \<^verbatim>\<open>selected\<close> flags of every card, and \<^verbatim>\<open>revealedCardCount\<close>\<close>
  "revealState w = (map (\<lambda>c. (revealed c, selected c)) (cardMeshes w), revealedCardCount w)"

definition failedAnswer :: "response \<Rightarrow> bool" where
  \<comment> \<open>an answer on which fetchSingleCardContent throws\<close>
  "failedAnswer r = (r = Failed \<or> r = SearchData None)"

definition quietTask :: "task \<Rightarrow> bool" where
  \<comment> \<open>the callbacks of the labels and of the reset button's highlight: they write opacities
      and classes only\<close>
  "quietTask t =
     (case t of UpdateLabelOpacity material startTime \<Rightarrow> True
      | AnimateLabelAppearance material \<Rightarrow> True
      | HighlightResetButton \<Rightarrow> True
      | _ \<Rightarrow> False)"

definition flipTick :: "nat \<Rightarrow> task \<Rightarrow> bool" where
  \<comment> \<open>a tick of the flip of card \<open>i\<close>\<close>
  "flipTick i t =
     (case t of UpdateCardRotation j startRotX startTime texture lbl textureChanged \<Rightarrow> j = i
      | _ \<Rightarrow> False)"

definition flipInFlight :: "nat \<Rightarrow> world \<Rightarrow> bool" where
  \<comment> \<open>a tick of the flip of card \<open>i\<close> is registered for the next animation frame\<close>
  "flipInFlight i w = list_ex (flipTick i) (frameRequests w)"

definition completions :: "tween \<Rightarrow> world \<Rightarrow> nat" where
  \<comment> \<open>how often the completion branch of a tween's tick has run\<close>
  "completions tw w = count_list (completedTweens w) tw"

definition quietQueues :: "world \<Rightarrow> bool" where
  \<comment> \<open>no animation is pending but those of labels and of the reset button\<close>
  "quietQueues w =
     (list_all quietTask (frameRequests w) \<and> list_all (\<lambda>timer. quietTask (snd timer)) (timers w))"

definition loopState :: "nat \<Rightarrow> bool \<Rightarrow> tween list \<Rightarrow> task list \<Rightarrow> world \<Rightarrow> bool" where
  \<comment> \<open>the clock, the flag, the completions so far and the pending ticks that are not quiet;
      every timer is quiet\<close>
  "loopState n a cs fl w =
     (now w = n \<and> animating w = a \<and> completedTweens w = cs \<and>
      filter (\<lambda>t. \<not> quietTask t) (frameRequests w) = fl \<and>
      list_all (\<lambda>timer. quietTask (snd timer)) (timers w))"

definition tweenOf :: "task \<Rightarrow> tween option" where
  \<comment> \<open>the tween that a pending callback drives, if it drives one with a completion branch\<close>
  "tweenOf t =
     (case t of
        EntryTimeout i \<Rightarrow> Some (EntryTween i)
      | UpdateCardPosition i startY startTime \<Rightarrow> Some (EntryTween i)
      | UpdateCardRotation i startRotX startTime texture lbl textureChanged \<Rightarrow> Some (FlipTween i)
      | ResetCardRotation i startRotX startTime \<Rightarrow> Some (FlipBackTween i)
      | _ \<Rightarrow> None)"

definition pendingTweens :: "world \<Rightarrow> tween list" where
  \<comment> \<open>one entry for every tick or start of a tween that is registered with the browser\<close>
  "pendingTweens w =
     List.map_filter tweenOf (frameRequests w) @ List.map_filter tweenOf (map snd (timers w))"

definition pendingTicks :: "tween \<Rightarrow> world \<Rightarrow> nat" where
  "pendingTicks tw w = count_list (pendingTweens w) tw"

definition tickProgress :: "task \<Rightarrow> world \<Rightarrow> real" where
  \<comment> \<open>\<^verbatim>\<open>progress\<close> as the callback computes it when it runs in \<open>w\<close>; a \<^verbatim>\<open>setTimeout\<close> callback that
      takes \<^verbatim>\<open>startTime\<close> itself starts at elapsed time 0\<close>
  "tickProgress t w =
     (case t of
        EntryTimeout i \<Rightarrow> progress (elapsedSince (now w) w) 600
      | UpdateCardPosition i startY startTime \<Rightarrow> progress (elapsedSince startTime w) 600
      | UpdateCardRotation i startRotX startTime texture lbl textureChanged \<Rightarrow>
          progress (elapsedSince startTime w) 800
      | UpdateLabelOpacity material startTime \<Rightarrow> progress (elapsedSince startTime w) 1000
      | AnimateLabelAppearance material \<Rightarrow> progress (elapsedSince (now w) w) 1000
      | HighlightResetButton \<Rightarrow> 1
      | ResetCardRotation i startRotX startTime \<Rightarrow> progress (elapsedSince startTime w) 600)"

definition tokOf :: "task \<Rightarrow> tween multiset" where
  "tokOf t = (case tweenOf t of Some tw \<Rightarrow> {#tw#} | None \<Rightarrow> {#})"

definition tok :: "world \<Rightarrow> tween multiset" where
  \<comment> \<open>every tween once for each of its pending callbacks and for each of its completions\<close>
  "tok w = mset (pendingTweens w) + mset (completedTweens w)"

definition flipPhase ::
  "nat \<Rightarrow> real \<Rightarrow> nat \<Rightarrow> string option \<Rightarrow> string option \<Rightarrow> tween list \<Rightarrow> world \<Rightarrow> bool" where
  \<comment> \<open>the flip of card \<open>i\<close> that started at \<open>st\<close> is the only animation: either its tick is
      pending and the flag is set, or it has completed, at \<open>st + 800\<close> or later, and the
      flag is clear\<close>
  "flipPhase i r st tex lbl cs w =
     ((\<exists>tc. loopState (now w) True cs [UpdateCardRotation i r st tex lbl tc] w) \<or>
      (loopState (now w) False (cs @ [FlipTween i]) [] w \<and> st + 800 \<le> now w))"

chapter \<open>Properties\<close>

section \<open>Easing curves and the value of a tick\<close>

text \<open>
  C7. Every easing curve of the script is 0 at progress 0 and 1 at progress 1: ease-out
  cubic, ease-in-out quad, ease-out quad, ease-in-out cubic and the linear one. The
  opacity curve of the label is 1 at progress 1 because its oscillation term is 0 there
  (and it is 0 at progress 0).
\<close>

theorem easing_endpoints:
  "easeOutCubic 0 = 0 \<and> easeOutCubic 1 = 1 \<and>
   easeInOutQuad 0 = 0 \<and> easeInOutQuad 1 = 1 \<and>
   easeOutQuad 0 = 0 \<and> easeOutQuad 1 = 1 \<and>
   easeInOutCubic 0 = 0 \<and> easeInOutCubic 1 = 1 \<and>
   linearEase 0 = 0 \<and> linearEase 1 = 1 \<and>
   labelOscillation 1 = 0 \<and> labelOpacity 1 = 1 \<and> labelOpacity 0 = 0"
  by (simp add: easeOutCubic_def easeInOutQuad_def easeOutQuad_def easeInOutCubic_def
      linearEase_def labelOscillation_def labelOpacity_def labelEasedProgress_def)



section \<open>The progress computation never divides by zero\<close>

text \<open>
  No function of the script takes a duration: every tick divides by a constant of its
  own, one of 200, 600, 800, 1000 and 3000 ms, or by \<open>500 + 200 * Math.random()\<close>. None of
  them is 0, so for every elapsed time the progress is the number
  \<open>min (elapsed / duration) 1\<close> and never \<^verbatim>\<open>NaN\<close>, and the entry tick on JavaScript numbers is
  the tick of the real-valued model.
\<close>

lemma jsProgress_nonzero:
  "d \<noteq> 0 \<Longrightarrow> jsProgress (Number e) (Number d) = Number (progress e d)"
  by (auto simp add: jsProgress_def progress_def min_def)

lemma flyDuration_nonzero: "0 \<le> r \<Longrightarrow> flyDuration r \<noteq> 0"
proof -
  assume "0 \<le> r"
  then have "0 < 500 + r * 200" by (simp add: add_pos_nonneg)
  then show "flyDuration r \<noteq> 0" by (simp add: flyDuration_def)
qed

lemma progress_is_a_number:
  assumes "d \<in> set scriptDurations \<or> (\<exists>r. 0 \<le> r \<and> d = flyDuration r)"
  shows "jsProgress (Number e) (Number d) = Number (progress e d)"
proof -
  from assms have "d \<noteq> 0"
    by (auto simp add: scriptDurations_def flyDuration_nonzero)
  then show ?thesis by (rule jsProgress_nonzero)
qed

lemma jsUpdateCardPosition_number:
  "jsUpdateCardPosition (Number s) (Number e) =
     (Number (tweenValue easeOutCubic s 0 600 e), progress e 600 < 1)"
  by (simp add: jsUpdateCardPosition_def jsProgress_nonzero jsEaseOutCubic_def jsSub_def
      numeral_3_eq_3 tweenValue_def easeOutCubic_def Let_def power3_eq_cube)

section \<open>The selection of the cosmic shuffle\<close>

lemma randomIndex_range:
  assumes "0 \<le> r" and "r < 1" and "0 < n"
  shows "0 \<le> randomIndex r n \<and> randomIndex r n < int n"
proof -
  have "r * real n < real n" using assms by simp
  then have "\<lfloor>r * real n\<rfloor> < int n" by (simp add: floor_less_iff)
  moreover have "0 \<le> \<lfloor>r * real n\<rfloor>" using assms by simp
  ultimately show ?thesis by (simp add: randomIndex_def)
qed

lemma jsSplice1_in_range:
  "0 \<le> i \<Longrightarrow> i < int (length xs) \<Longrightarrow>
   jsSplice1 i xs = (Some (xs ! nat i), take (nat i) xs @ drop (Suc (nat i)) xs)"
  by (simp add: jsSplice1_def Let_def min_def)

lemma mset_without_nth:
  assumes "j < length xs"
  shows "add_mset (xs ! j) (mset (take j xs @ drop (Suc j) xs)) = mset xs"
proof -
  have "mset xs = mset (take j xs @ xs ! j # drop (Suc j) xs)"
    using id_take_nth_drop[OF assms] by simp
  then show ?thesis by simp
qed

lemma selectLoop_draws:
  assumes rnd: "\<forall>j. 0 \<le> rnd j \<and> rnd j < 1"
  shows "m \<le> length remove \<Longrightarrow>
     \<exists>kept rest. selectLoop rnd k i m keep remove = Inr (keep @ kept, rest) \<and>
        length kept = m \<and> length rest = length remove - m \<and>
        mset (map gid kept) + mset (map gid rest) = mset (map gid remove) \<and>
        map positionIndex kept = map Some [i..<i + m] \<and>
        (0 < m \<longrightarrow> gid (hd kept) = gid (remove ! nat (randomIndex (rnd k) (length remove))))"
proof (induction m arbitrary: k i keep remove)
  case 0
  then show ?case by simp
next
  case (Suc m)
  let ?n = "length remove"
  let ?ri = "randomIndex (rnd k) ?n"
  let ?j = "nat ?ri"
  from Suc.prems have n: "0 < ?n" by auto
  from randomIndex_range[OF _ _ n, of "rnd k"] rnd have ri: "0 \<le> ?ri" "?ri < int ?n" by auto
  then have j: "?j < ?n" by simp
  let ?c = "(remove ! ?j)\<lparr>positionIndex := Some i, selected := True, scale := (1.5, 1.5, 1.5)\<rparr>"
  let ?rest = "take ?j remove @ drop (Suc ?j) remove"
  have len: "length ?rest = ?n - 1" using j by simp
  with Suc.prems have "m \<le> length ?rest" by simp
  from Suc.IH[OF this, of "Suc k" "Suc i" "keep @ [?c]"]
  obtain kept rest where IH:
    "selectLoop rnd (Suc k) (Suc i) m (keep @ [?c]) ?rest = Inr ((keep @ [?c]) @ kept, rest)"
    "length kept = m" "length rest = length ?rest - m"
    "mset (map gid kept) + mset (map gid rest) = mset (map gid ?rest)"
    "map positionIndex kept = map Some [Suc i..<Suc i + m]"
    by blast
  have step: "selectLoop rnd k i (Suc m) keep remove =
              selectLoop rnd (Suc k) (Suc i) m (keep @ [?c]) ?rest"
    using n by (simp add: jsSplice1_in_range[OF ri])
  have ms: "add_mset (gid (remove ! ?j)) (mset (map gid ?rest)) = mset (map gid remove)"
    using mset_without_nth[OF j] by (metis (no_types) image_mset_add_mset mset_map)
  have upt: "[i..<i + Suc m] = i # [Suc i..<Suc i + m]"
    by (simp add: upt_rec)
  show ?case
  proof (intro exI conjI)
    show "selectLoop rnd k i (Suc m) keep remove = Inr (keep @ (?c # kept), rest)"
      using step IH(1) by simp
    show "length (?c # kept) = Suc m" using IH(2) by simp
    show "length rest = length remove - Suc m" using IH(3) len by simp
    show "mset (map gid (?c # kept)) + mset (map gid rest) = mset (map gid remove)"
      using IH(4) ms by simp
    show "map positionIndex (?c # kept) = map Some [i..<i + Suc m]"
      using IH(5) upt by simp
    show "0 < Suc m \<longrightarrow> gid (hd (?c # kept)) = gid (remove ! ?j)"
      by simp
  qed
qed

lemma selectLoop_same_draws:
  "\<forall>j<m. rnd' (k' + j) = rnd (k + j) \<Longrightarrow>
   selectLoop rnd' k' i m keep remove = selectLoop rnd k i m keep remove"
proof (induction m arbitrary: k k' i keep remove)
  case 0
  then show ?case by simp
next
  case (Suc m)
  from Suc.prems have h: "rnd' k' = rnd k" by (metis add.right_neutral zero_less_Suc)
  from Suc.prems have t: "\<forall>j<m. rnd' (Suc k' + j) = rnd (Suc k + j)"
    by (metis Suc_less_eq add_Suc_shift)
  from Suc.prems have t2: "\<forall>j<m. rnd' (k' + j) = rnd (k + j)"
    by simp
  show ?case
    by (simp add: h Suc.IH[OF t] Suc.IH[OF t2] split: prod.splits option.splits)
qed

text \<open>
  C4. With \<^verbatim>\<open>Math.random()\<close> in \<open>[0, 1)\<close>, the selection of \<open>K\<close> cards from a pool of \<open>N \<ge> K\<close>
  distinct cards returns \<open>K\<close> distinct kept cards and \<open>N - K\<close> discarded ones, which together
  are the pool and have no card in common. The kept cards carry the position indices
  \<open>0, ..., K - 1\<close> in the order in which they were drawn: index 0 goes to the card at the
  first random index of the pool, whatever its place there. The result depends on the
  random source only through the \<open>K\<close> values drawn, so the same values give the same kept
  and discarded cards.
\<close>

theorem selection_partitions_pool:
  assumes "\<forall>j. 0 \<le> rnd j \<and> rnd j < 1" and "K \<le> length pool" and "distinct (map gid pool)"
  shows "(\<exists>kept discarded.
     selectCards K rnd k pool = Inr (kept, discarded) \<and>
     length kept = K \<and> distinct (map gid kept) \<and>
     length discarded = length pool - K \<and> distinct (map gid discarded) \<and>
     set (map gid kept) \<union> set (map gid discarded) = set (map gid pool) \<and>
     set (map gid kept) \<inter> set (map gid discarded) = {} \<and>
     map positionIndex kept = map Some [0..<K] \<and>
     (0 < K \<longrightarrow> gid (kept ! 0) = gid (pool ! nat (randomIndex (rnd k) (length pool))))) \<and>
     (\<forall>rnd' k'. (\<forall>j<K. rnd' (k' + j) = rnd (k + j)) \<longrightarrow>
        selectCards K rnd' k' pool = selectCards K rnd k pool)"
proof -
  from selectLoop_draws[OF assms(1) assms(2), of k 0 "[]"]
  obtain kept rest where r:
    "selectLoop rnd k 0 K [] pool = Inr (kept, rest)"
    "length kept = K" "length rest = length pool - K"
    "mset (map gid kept) + mset (map gid rest) = mset (map gid pool)"
    "map positionIndex kept = map Some [0..<K]"
    "0 < K \<longrightarrow> gid (hd kept) = gid (pool ! nat (randomIndex (rnd k) (length pool)))"
    by auto
  from r(4) have m: "mset (map gid kept @ map gid rest) = mset (map gid pool)" by simp
  from m assms(3) have d: "distinct (map gid kept @ map gid rest)"
    by (metis mset_eq_imp_distinct_iff)
  from m have s: "set (map gid kept @ map gid rest) = set (map gid pool)"
    by (metis mset_eq_setD)
  have h: "0 < K \<longrightarrow> kept ! 0 = hd kept"
    using r(2) by (cases kept) auto
  have same: "\<forall>rnd' k'. (\<forall>j<K. rnd' (k' + j) = rnd (k + j)) \<longrightarrow>
        selectCards K rnd' k' pool = selectCards K rnd k pool"
    by (simp add: selectCards_def selectLoop_same_draws)
  have "\<exists>kept discarded.
     selectCards K rnd k pool = Inr (kept, discarded) \<and>
     length kept = K \<and> distinct (map gid kept) \<and>
     length discarded = length pool - K \<and> distinct (map gid discarded) \<and>
     set (map gid kept) \<union> set (map gid discarded) = set (map gid pool) \<and>
     set (map gid kept) \<inter> set (map gid discarded) = {} \<and>
     map positionIndex kept = map Some [0..<K] \<and>
     (0 < K \<longrightarrow> gid (kept ! 0) = gid (pool ! nat (randomIndex (rnd k) (length pool))))"
  proof (intro exI conjI)
    show "selectCards K rnd k pool = Inr (kept, rest)" using r(1) by (simp add: selectCards_def)
    show "length kept = K" by (rule r(2))
    show "distinct (map gid kept)" using d by simp
    show "length rest = length pool - K" by (rule r(3))
    show "distinct (map gid rest)" using d by simp
    show "set (map gid kept) \<union> set (map gid rest) = set (map gid pool)" using s by simp
    show "set (map gid kept) \<inter> set (map gid rest) = {}" using d by simp
    show "map positionIndex kept = map Some [0..<K]" by (rule r(5))
    show "0 < K \<longrightarrow> gid (kept ! 0) = gid (pool ! nat (randomIndex (rnd k) (length pool)))"
      using r(6) h by simp
  qed
  with same show ?thesis by (rule_tac conjI)
qed

lemma createShuffleCards_gids: "map gid (createShuffleCards n) = [0..<n]"
  by (simp add: createShuffleCards_def shuffleCard_def comp_def)

lemma createShuffleCards_length: "length (createShuffleCards n) = n"
  by (simp add: createShuffleCards_def)

lemma createShuffleCards_nth: "i < n \<Longrightarrow> gid (createShuffleCards n ! i) = i"
  by (simp add: createShuffleCards_def shuffleCard_def)

theorem selection_partitions_pool_witness:
  "\<exists>kept discarded.
     selectAndPlaceFourCards (\<lambda>k. 1 / 2) 0 (createShuffleCards 60) = Inr (kept, discarded) \<and>
     length kept = 4 \<and> distinct (map gid kept) \<and>
     length discarded = 56 \<and> distinct (map gid discarded) \<and>
     set (map gid kept) \<union> set (map gid discarded) = {0..<60} \<and>
     set (map gid kept) \<inter> set (map gid discarded) = {} \<and>
     map positionIndex kept = [Some 0, Some 1, Some 2, Some 3] \<and>
     gid (kept ! 0) = 30"
proof -
  have g: "gid (createShuffleCards 60 ! 30) = 30"
    by (simp add: createShuffleCards_nth)
  have u: "[0..<4] = [0, 1, 2, 3]" by (simp add: upt_rec)
  have r: "\<forall>j. 0 \<le> (\<lambda>k::nat. 1 / 2 :: real) j \<and> (\<lambda>k::nat. 1 / 2 :: real) j < 1" by simp
  have l: "4 \<le> length (createShuffleCards 60)" by (simp add: createShuffleCards_length)
  have d: "distinct (map gid (createShuffleCards 60))" by (simp add: createShuffleCards_gids)
  from selection_partitions_pool [OF r l d, of 0, THEN conjunct1] g u
  show ?thesis
    by (simp add: selectAndPlaceFourCards_def createShuffleCards_gids randomIndex_def
        createShuffleCards_length)
qed

lemma selection_in_draw_order:
  "map_sum id (\<lambda>(kept, discarded). (map gid kept, map positionIndex kept, map gid discarded))
     (selectAndPlaceFourCards
        (\<lambda>k. if k = 0 then 1 / 2 else if k = 1 then 0 else if k = 2 then 99 / 100 else 3 / 10)
        0 (createShuffleCards 10)) =
   Inr ([5, 0, 9, 3], [Some 0, Some 1, Some 2, Some 3], [1, 2, 4, 6, 7, 8])"
  by (simp add: selectAndPlaceFourCards_def selectCards_def createShuffleCards_def
      shuffleCard_def numeral_eq_Suc upt_rec jsSplice1_def randomIndex_def Let_def)

section \<open>The retry of a fetch without results\<close>

lemma cardsOfBlocks_empty: "filter hasValidImage bs = [] \<Longrightarrow> cardsOfBlocks bs rnd k = ([], k)"
  by (simp add: cardsOfBlocks_def Let_def)

lemma cardsOfBlocks_nonempty:
  assumes "filter hasValidImage bs \<noteq> []"
  shows "\<exists>cs. cardsOfBlocks bs rnd k = (cs, k + length (filter hasValidImage bs)) \<and> cs \<noteq> [] \<and>
           mset (map fst cs) = mset (filter hasValidImage bs)"
proof -
  let ?v = "filter hasValidImage bs"
  let ?z = "zip ?v (map rnd [k..<k + length ?v])"
  have "mset (map fst (sort_key snd ?z)) = mset (map fst ?z)"
    by (metis mset_map mset_sort)
  also have "map fst ?z = ?v" by (simp add: map_fst_zip)
  finally have m: "mset (map fst (sort_key snd ?z)) = mset ?v" .
  have "length (sort_key snd ?z) = length ?v" by simp
  with assms have "sort_key snd ?z \<noteq> []" by (metis length_0_conv)
  with m show ?thesis by (simp add: cardsOfBlocks_def Let_def)
qed

lemma emptyResultD:
  "emptyResult r \<Longrightarrow> \<exists>bs. r = SearchData (Some bs) \<and> filter hasValidImage bs = []"
  by (auto simp: emptyResult_def split: response.splits option.splits)

lemma getRandomQuery_calls: "snd (getRandomQuery qs rnd k) = (if qs = [] then k else Suc k)"
  by (simp add: getRandomQuery_def)

lemma fetchRandomContent_returns:
  assumes "fetchRandomContent qs net rnd k n = Some y"
  shows "\<not> (\<forall>n q. emptyResult (net n q))"
proof (rule fetchRandomContent.raw_induct
    [where P = "\<lambda>qs net rnd k n y. \<not> (\<forall>n q. emptyResult (net n q))", OF _ assms], goal_cases)
  case (1 f qs net rnd k n y)
  note IH = 1(1) and eq = 1(2)
  show ?case
  proof
    assume e: "\<forall>n q. emptyResult (net n q)"
    obtain q k1 where q: "getRandomQuery qs rnd k = (q, k1)"
      by (cases "getRandomQuery qs rnd k")
    from e have "emptyResult (net n q)" by blast
    from emptyResultD[OF this] obtain bs where
      bs: "net n q = SearchData (Some bs)" "filter hasValidImage bs = []"
      by blast
    from eq have s: "f qs net rnd k1 (Suc n) = Some y"
      by (simp add: q bs cardsOfBlocks_empty)
    from IH[OF s] e show False by blast
  qed
qed

lemma fetchSingleCardContent_returns:
  assumes "fetchSingleCardContent qs net rnd cs0 k n = Some y"
  shows "\<not> (cs0 = [] \<and> (\<forall>n q. emptyResult (net n q)))"
proof (rule fetchSingleCardContent.raw_induct
    [where P = "\<lambda>qs net rnd cs0 k n y. \<not> (cs0 = [] \<and> (\<forall>n q. emptyResult (net n q)))",
      OF _ assms], goal_cases)
  case (1 f qs net rnd cs0 k n y)
  note IH = 1(1) and eq = 1(2)
  show ?case
  proof
    assume e: "cs0 = [] \<and> (\<forall>n q. emptyResult (net n q))"
    obtain q k1 where q: "getRandomQuery qs rnd k = (q, k1)"
      by (cases "getRandomQuery qs rnd k")
    from e have "emptyResult (net n q)" by blast
    from emptyResultD[OF this] obtain bs where
      bs: "net n q = SearchData (Some bs)" "filter hasValidImage bs = []"
      by blast
    from eq e have s: "f qs net rnd [] k1 (Suc n) = Some y"
      by (simp add: q bs cardsOfBlocks_empty)
    from IH[OF s] e show False by blast
  qed
qed

lemma fetchRandomContent_retry:
  assumes "\<forall>q. emptyResult (net n q)"
  shows "fetchRandomContent qs net rnd k n =
         fetchRandomContent qs net rnd (if qs = [] then k else Suc k) (Suc n)"
proof -
  obtain q k1 where q: "getRandomQuery qs rnd k = (q, k1)"
    by (cases "getRandomQuery qs rnd k")
  with getRandomQuery_calls[of qs rnd k] have k1: "k1 = (if qs = [] then k else Suc k)" by simp
  from assms emptyResultD obtain bs where
    bs: "net n q = SearchData (Some bs)" "filter hasValidImage bs = []"
    by blast
  show ?thesis
    by (subst fetchRandomContent.simps) (simp add: q bs cardsOfBlocks_empty k1)
qed

lemma fetchRandomContent_retries:
  "\<forall>i<m. \<forall>q. emptyResult (net (n + i) q) \<Longrightarrow>
   fetchRandomContent qs net rnd k n =
   fetchRandomContent qs net rnd (if qs = [] then k else k + m) (n + m)"
proof (induction m arbitrary: k n)
  case 0
  then show ?case by simp
next
  case (Suc m)
  from Suc.prems have e0: "\<forall>q. emptyResult (net n q)"
    by (metis add.right_neutral zero_less_Suc)
  from Suc.prems have em: "\<forall>i<m. \<forall>q. emptyResult (net (Suc n + i) q)"
    by (metis Suc_less_eq add_Suc_shift)
  show ?case
    using fetchRandomContent_retry[where net=net and n=n and qs=qs and rnd=rnd and k=k] e0
      Suc.IH[where n="Suc n" and k="if qs = [] then k else Suc k"] em
    by simp
qed

lemma fetchRandomContent_result:
  assumes "net n (fst (getRandomQuery qs rnd k)) = SearchData (Some bs)"
    and "filter hasValidImage bs \<noteq> []"
  shows "\<exists>cs k'. fetchRandomContent qs net rnd k n = Some (Inr (cs, k', Suc n)) \<and> cs \<noteq> [] \<and>
           mset (map fst cs) = mset (filter hasValidImage bs)"
proof -
  obtain q k1 where q: "getRandomQuery qs rnd k = (q, k1)"
    by (cases "getRandomQuery qs rnd k")
  from cardsOfBlocks_nonempty[OF assms(2), of rnd k1] obtain cs where
    cs: "cardsOfBlocks bs rnd k1 = (cs, k1 + length (filter hasValidImage bs))" "cs \<noteq> []"
      "mset (map fst cs) = mset (filter hasValidImage bs)" by blast
  have "fetchRandomContent qs net rnd k n =
        Some (Inr (cs, k1 + length (filter hasValidImage bs), Suc n))"
    using assms(1) cs(2) by (subst fetchRandomContent.simps) (simp add: q cs(1))
  with cs show ?thesis by blast
qed

lemma fetchSingleCardContent_retry:
  assumes "\<forall>q. emptyResult (net n q)"
  shows "fetchSingleCardContent qs net rnd [] k n =
         fetchSingleCardContent qs net rnd [] (if qs = [] then k else Suc k) (Suc n)"
proof -
  obtain q k1 where q: "getRandomQuery qs rnd k = (q, k1)"
    by (cases "getRandomQuery qs rnd k")
  with getRandomQuery_calls[of qs rnd k] have k1: "k1 = (if qs = [] then k else Suc k)" by simp
  from assms emptyResultD obtain bs where
    bs: "net n q = SearchData (Some bs)" "filter hasValidImage bs = []"
    by blast
  show ?thesis
    by (subst fetchSingleCardContent.simps) (simp add: q bs cardsOfBlocks_empty k1)
qed

lemma fetchSingleCardContent_retries:
  "\<forall>i<m. \<forall>q. emptyResult (net (n + i) q) \<Longrightarrow>
   fetchSingleCardContent qs net rnd [] k n =
   fetchSingleCardContent qs net rnd [] (if qs = [] then k else k + m) (n + m)"
proof (induction m arbitrary: k n)
  case 0
  then show ?case by simp
next
  case (Suc m)
  from Suc.prems have e0: "\<forall>q. emptyResult (net n q)"
    by (metis add.right_neutral zero_less_Suc)
  from Suc.prems have em: "\<forall>i<m. \<forall>q. emptyResult (net (Suc n + i) q)"
    by (metis Suc_less_eq add_Suc_shift)
  show ?case
    using fetchSingleCardContent_retry[where net=net and n=n and qs=qs and rnd=rnd and k=k] e0
      Suc.IH[where n="Suc n" and k="if qs = [] then k else Suc k"] em
    by simp
qed

lemma fetchSingleCardContent_result:
  assumes "net n (fst (getRandomQuery qs rnd k)) = SearchData (Some bs)"
    and "filter hasValidImage bs \<noteq> []"
  shows "\<exists>c cs k'. fetchSingleCardContent qs net rnd [] k n = Some (Inr (c, cs, k', Suc n)) \<and>
           cs \<noteq> [] \<and> mset (map fst cs) = mset (filter hasValidImage bs)"
proof -
  obtain q k1 where q: "getRandomQuery qs rnd k = (q, k1)"
    by (cases "getRandomQuery qs rnd k")
  from cardsOfBlocks_nonempty[OF assms(2), of rnd k1] obtain cs where
    cs: "cardsOfBlocks bs rnd k1 = (cs, k1 + length (filter hasValidImage bs))" "cs \<noteq> []"
      "mset (map fst cs) = mset (filter hasValidImage bs)" by blast
  let ?k2 = "k1 + length (filter hasValidImage bs)"
  have "fetchSingleCardContent qs net rnd [] k n =
        Some (Inr (jsIndex cs (randomIndex (rnd ?k2) (length cs)), cs, Suc ?k2, Suc n))"
    using assms(1) cs(2) by (subst fetchSingleCardContent.simps) (simp add: q cs(1))
  with cs show ?thesis by blast
qed

text \<open>
  C9. When the answer to a search has no block with a valid image, fetchRandomContent and
  fetchSingleCardContent (called with no cards yet) ask again: after \<open>m\<close> such answers in a
  row, for any \<open>m\<close>, the call is where it was with request \<open>n + m\<close>, and the first answer
  that has valid images makes it return them, in some order. Nothing counts the
  attempts: against a network whose every answer is without results, neither call ever
  settles.
\<close>

theorem retry_on_empty_results:
  "((\<forall>n q. emptyResult (net n q)) \<longrightarrow>
      fetchRandomContent qs net rnd k n = None \<and>
      fetchSingleCardContent qs net rnd [] k n = None) \<and>
   ((\<forall>i<m. \<forall>q. emptyResult (net (n + i) q)) \<longrightarrow>
      fetchRandomContent qs net rnd k n =
        fetchRandomContent qs net rnd (if qs = [] then k else k + m) (n + m) \<and>
      fetchSingleCardContent qs net rnd [] k n =
        fetchSingleCardContent qs net rnd [] (if qs = [] then k else k + m) (n + m)) \<and>
   (net n (fst (getRandomQuery qs rnd k)) = SearchData (Some bs) \<and>
    filter hasValidImage bs \<noteq> [] \<longrightarrow>
      (\<exists>cs k'. fetchRandomContent qs net rnd k n = Some (Inr (cs, k', Suc n)) \<and> cs \<noteq> [] \<and>
         mset (map fst cs) = mset (filter hasValidImage bs)) \<and>
      (\<exists>c cs k'. fetchSingleCardContent qs net rnd [] k n = Some (Inr (c, cs, k', Suc n)) \<and>
         cs \<noteq> [] \<and> mset (map fst cs) = mset (filter hasValidImage bs)))"
proof (intro conjI impI)
  assume e: "\<forall>n q. emptyResult (net n q)"
  show "fetchRandomContent qs net rnd k n = None"
    using fetchRandomContent_returns[of qs net rnd k n] e
    by (cases "fetchRandomContent qs net rnd k n") auto
  show "fetchSingleCardContent qs net rnd [] k n = None"
    using fetchSingleCardContent_returns[of qs net rnd "[]" k n] e
    by (cases "fetchSingleCardContent qs net rnd [] k n") auto
next
  assume e: "\<forall>i<m. \<forall>q. emptyResult (net (n + i) q)"
  show "fetchRandomContent qs net rnd k n =
        fetchRandomContent qs net rnd (if qs = [] then k else k + m) (n + m)"
    by (rule fetchRandomContent_retries[OF e])
  show "fetchSingleCardContent qs net rnd [] k n =
        fetchSingleCardContent qs net rnd [] (if qs = [] then k else k + m) (n + m)"
    by (rule fetchSingleCardContent_retries[OF e])
next
  assume a: "net n (fst (getRandomQuery qs rnd k)) = SearchData (Some bs) \<and>
             filter hasValidImage bs \<noteq> []"
  show "\<exists>cs k'. fetchRandomContent qs net rnd k n = Some (Inr (cs, k', Suc n)) \<and> cs \<noteq> [] \<and>
         mset (map fst cs) = mset (filter hasValidImage bs)"
    using a by (intro fetchRandomContent_result) simp_all
  show "\<exists>c cs k'. fetchSingleCardContent qs net rnd [] k n = Some (Inr (c, cs, k', Suc n)) \<and>
         cs \<noteq> [] \<and> mset (map fst cs) = mset (filter hasValidImage bs)"
    using a by (intro fetchSingleCardContent_result) simp_all
qed

theorem retry_on_empty_results_witness:
  "fetchRandomContent [''art''] (\<lambda>n q. SearchData (Some [])) (\<lambda>k. 0) 0 0 = None \<and>
   fetchSingleCardContent [''art''] (\<lambda>n q. SearchData (Some [])) (\<lambda>k. 0) [] 0 0 = None \<and>
   fetchRandomContent [''art'']
     (\<lambda>n q. SearchData (Some (if n < 2 then [] else [\<lparr>blockId = 7, imageDisplayUrl = Some ''u''\<rparr>])))
     (\<lambda>k. 0) 0 0 =
   fetchRandomContent [''art'']
     (\<lambda>n q. SearchData (Some (if n < 2 then [] else [\<lparr>blockId = 7, imageDisplayUrl = Some ''u''\<rparr>])))
     (\<lambda>k. 0) 2 2 \<and>
   (\<exists>cs k'. fetchRandomContent [''art'']
     (\<lambda>n q. SearchData (Some (if n < 2 then [] else [\<lparr>blockId = 7, imageDisplayUrl = Some ''u''\<rparr>])))
     (\<lambda>k. 0) 2 2 = Some (Inr (cs, k', 3)) \<and> cs \<noteq> [])"
proof -
  let ?none = "\<lambda>(n::nat) (q::string option). SearchData (Some [])"
  let ?later = "\<lambda>(n::nat) (q::string option).
     SearchData (Some (if n < 2 then [] else [\<lparr>blockId = 7, imageDisplayUrl = Some ''u''\<rparr>]))"
  let ?rnd = "\<lambda>k::nat. 0::real"
  have a: "fetchRandomContent [''art''] ?none ?rnd 0 0 = None \<and>
           fetchSingleCardContent [''art''] ?none ?rnd [] 0 0 = None"
    using retry_on_empty_results [where net = ?none and qs = "[''art'']" and rnd = ?rnd
        and k = 0 and n = 0 and m = 0 and bs = "[]"]
    by (simp add: emptyResult_def)
  have b: "fetchRandomContent [''art''] ?later ?rnd 0 0 = fetchRandomContent [''art''] ?later ?rnd 2 2"
    using retry_on_empty_results [where net = ?later and qs = "[''art'']" and rnd = ?rnd
        and k = 0 and n = 0 and m = 2 and bs = "[]"]
    by (simp add: emptyResult_def numeral_2_eq_2)
  have c: "\<exists>cs k'. fetchRandomContent [''art''] ?later ?rnd 2 2 = Some (Inr (cs, k', 3)) \<and> cs \<noteq> []"
    using retry_on_empty_results [where net = ?later and qs = "[''art'']" and rnd = ?rnd
        and k = 2 and n = 2 and m = 0 and bs = "[\<lparr>blockId = 7, imageDisplayUrl = Some ''u''\<rparr>]"]
    by (simp add: hasValidImage_def numeral_3_eq_3) blast
  from a b c show ?thesis by simp
qed

section \<open>Runs of the event loop\<close>

text \<open>
  The definitions that a run of the event loop unfolds when it is evaluated on a given
  list of events, and the timer that a timeout runs.
\<close>

lemmas world_defs = run_def newReading_def flipCard_def requestCardContent_def cardContentFetched_def
  updateCard_def MAX_REVEALED_CARDS_def labelFor_def jsIndex_def randomIndex_def hasValidImage_def
  createCard_def textureSettles_def textureLoaded_def animateCardFlip_def updateCardRotation_def
  elapsedSince_def progress_def tweenValue_def easeInOutQuad_def requestAnimationFrame_def setTimeout_def
  runFrame_def createLabelForCard_def animateLabelAppearance_def updateLabelOpacity_def
  createArenaLinkIndicator_def labelOpacity_def labelEasedProgress_def labelOscillation_def Let_def
  flipCompleted_def

lemmas reset_defs = resetTarotReading_def resetCardRotation_def resolveFlipBack_def
  allFlippedBack_def runTimeout_def dueTimer_def highlightResetButton_def revealState_def
  flipFailed_def

lemmas entry_defs = animateCardsEntry_def entryTimeout_def updateCardPosition_def easeOutCubic_def

lemma dueTimer_in_timers: "dueTimer w = Some timer \<Longrightarrow> timer \<in> set (timers w)"
proof -
  assume d: "dueTimer w = Some timer"
  let ?due = "sort_key fst (filter (\<lambda>(t, callback). t \<le> now w) (timers w))"
  from d obtain rest where "?due = timer # rest"
    by (auto simp: dueTimer_def split: list.splits)
  then have "timer \<in> set ?due" by simp
  then show ?thesis by simp
qed

section \<open>A flip that fails\<close>

lemma find_append_last:
  "\<forall>x \<in> set xs. \<not> P x \<Longrightarrow> P y \<Longrightarrow> find P (xs @ [y]) = Some y"
  by (induction xs) auto

lemma find_none: "\<forall>x \<in> set xs. \<not> P x \<Longrightarrow> find P xs = None"
  by (induction xs) auto

lemma remove1_append_last: "y \<notin> set xs \<Longrightarrow> remove1 y (xs @ [y]) = xs"
  by (induction xs) auto

lemma flags_restored:
  assumes "i < length cs" "\<not> revealed (cs ! i)" "\<not> selected (cs ! i)"
  shows "map (\<lambda>c. (revealed c, selected c)) (cs[i := c'\<lparr>revealed := False, selected := False\<rparr>]) =
         map (\<lambda>c. (revealed c, selected c)) cs"
  using assms by (simp add: map_update list_update_same_conv)

lemma revealState_flipFailed_after:
  assumes "i < length (cardMeshes w)" "\<not> revealed (cardMeshes w ! i)" "\<not> selected (cardMeshes w ! i)"
    and "cardMeshes w1 = (cardMeshes w)[i := c']"
    and "revealedCardCount w1 = revealedCardCount w + 1"
  shows "revealState (flipFailed i w1) = revealState w"
  using assms flags_restored[of i "cardMeshes w" c']
  by (simp add: revealState_def flipFailed_def updateCard_def)


lemma cardContentFetched_cases:
  assumes "i < length (cardMeshes w)" "\<not> revealed (cardMeshes w ! i)" "\<not> selected (cardMeshes w ! i)"
    and "cardMeshes w1 = (cardMeshes w)[i := c']"
    and "revealedCardCount w1 = revealedCardCount w + 1"
    and "\<forall>p \<in> set (pendingTextures w1). fst p \<noteq> i"
  shows "revealState (textureSettles False i (cardContentFetched i lbl cd w1)) = revealState w"
proof (cases "\<exists>content position. cd = Some (content, position) \<and> hasValidImage content")
  case True
  then obtain content position where cd: "cd = Some (content, position)" "hasValidImage content"
    by blast
  let ?u = "the (imageDisplayUrl content)"
  let ?w2 = "cardContentFetched i lbl cd w1"
  have w2: "?w2 = (updateCard i (\<lambda>c. c\<lparr>arenaUrl := Some (blockId content)\<rparr>) w1)
               \<lparr>pendingTextures := pendingTextures w1 @ [(i, lbl, ?u)]\<rparr>"
    using cd by (simp add: cardContentFetched_def)
  have f: "find (\<lambda>(j, lbl, url). j = i) (pendingTextures ?w2) = Some (i, lbl, ?u)"
    using assms(6) by (simp add: w2 updateCard_def) (rule find_append_last, auto)
  have r: "remove1 (i, lbl, ?u) (pendingTextures ?w2) = pendingTextures w1"
    using assms(6) by (simp add: w2 updateCard_def) (rule remove1_append_last, force)
  have "textureSettles False i ?w2 = flipFailed i (?w2\<lparr>pendingTextures := pendingTextures w1\<rparr>)"
    by (simp add: textureSettles_def f r)
  moreover have "revealState (flipFailed i (?w2\<lparr>pendingTextures := pendingTextures w1\<rparr>)) = revealState w"
    by (rule revealState_flipFailed_after[where c' = "c'\<lparr>arenaUrl := Some (blockId content)\<rparr>"])
       (use assms in \<open>simp_all add: w2 updateCard_def\<close>)
  ultimately show ?thesis by simp
next
  case False
  then have w2: "cardContentFetched i lbl cd w1 = flipFailed i w1"
    by (auto simp: cardContentFetched_def split: option.splits prod.splits)
  have "find (\<lambda>(j, lbl, url). j = i) (pendingTextures (flipFailed i w1)) = None"
    using assms(6) by (simp add: flipFailed_def updateCard_def) (rule find_none, auto)
  then have "textureSettles False i (flipFailed i w1) = flipFailed i w1"
    by (simp add: textureSettles_def)
  then show ?thesis
    using revealState_flipFailed_after[OF assms(1-5)] by (simp add: w2)
qed


lemma flipCard_accepted:
  assumes "\<not> animating w" "i < length (cardMeshes w)" "\<not> revealed (cardMeshes w ! i)"
    "revealedCardCount w < MAX_REVEALED_CARDS"
  shows "flipCard i w =
      requestCardContent i (labelFor (revealedCardCount w + 1))
        ((updateCard i (\<lambda>c. c\<lparr>selected := True, revealed := True\<rparr>) w)
           \<lparr>revealedCardCount := revealedCardCount w + 1\<rparr>)"
  using assms by (simp add: flipCard_def Let_def updateCard_def)

lemma cardContentResponse_cases:
  assumes "i < length (cardMeshes w)" "\<not> revealed (cardMeshes w ! i)" "\<not> selected (cardMeshes w ! i)"
    and "cardMeshes w1 = (cardMeshes w)[i := c']"
    and "revealedCardCount w1 = revealedCardCount w + 1"
    and "\<forall>p \<in> set (pendingTextures w1). fst p \<noteq> i"
  shows "(failedAnswer (network w1 n q) \<longrightarrow>
            revealState (cardContentResponse n q i lbl w1) = revealState w) \<and>
         (\<not> emptyResult (network w1 n q) \<longrightarrow>
            revealState (textureSettles False i (cardContentResponse n q i lbl w1)) = revealState w)"
proof (cases "network w1 n q")
  case Failed
  have "find (\<lambda>(j, lbl, url). j = i) (pendingTextures (flipFailed i w1)) = None"
    using assms(6) by (simp add: flipFailed_def updateCard_def) (rule find_none, auto)
  then have "textureSettles False i (flipFailed i w1) = flipFailed i w1"
    by (simp add: textureSettles_def)
  then show ?thesis
    using Failed revealState_flipFailed_after[OF assms(1-5)]
    by (simp add: cardContentResponse_def)
next
  case (SearchData bo)
  show ?thesis
  proof (cases bo)
    case None
    have "find (\<lambda>(j, lbl, url). j = i) (pendingTextures (flipFailed i w1)) = None"
      using assms(6) by (simp add: flipFailed_def updateCard_def) (rule find_none, auto)
    then have "textureSettles False i (flipFailed i w1) = flipFailed i w1"
      by (simp add: textureSettles_def)
    then show ?thesis
      using None SearchData revealState_flipFailed_after[OF assms(1-5)]
      by (simp add: cardContentResponse_def)
  next
    case (Some blocks)
    obtain cs k2 where cb: "cardsOfBlocks blocks (random w1) (randomCalls w1) = (cs, k2)"
      by (cases "cardsOfBlocks blocks (random w1) (randomCalls w1)")
    have nf: "\<not> failedAnswer (network w1 n q)"
      using SearchData Some by (simp add: failedAnswer_def)
    show ?thesis
    proof (cases "filter hasValidImage blocks = []")
      case True
      then have "emptyResult (network w1 n q)"
        using SearchData Some by (simp add: emptyResult_def)
      with nf show ?thesis by simp
    next
      case False
      from cardsOfBlocks_nonempty[OF False, of "random w1" "randomCalls w1"] cb
      have cne: "length cs \<noteq> 0" by auto
      let ?w2 = "w1\<lparr>cards := cs, randomCalls := Suc k2\<rparr>"
      have eq: "cardContentResponse n q i lbl w1 =
            cardContentFetched i lbl (jsIndex cs (randomIndex (random w1 k2) (length cs))) ?w2"
        using SearchData Some cb cne by (simp add: cardContentResponse_def Let_def)
      have "revealState (textureSettles False i
              (cardContentFetched i lbl (jsIndex cs (randomIndex (random w1 k2) (length cs))) ?w2)) =
            revealState w"
        by (rule cardContentFetched_cases[where c' = c']) (use assms in simp_all)
      with nf show ?thesis by (simp add: eq)
    qed
  qed
qed

text \<open>
  When nothing comes between the click and the failure, a flip that fails leaves the
  reveal state as it found it. flipCard, once past its guards, sets the card's
  \<^verbatim>\<open>selected\<close> and \<^verbatim>\<open>revealed\<close> flags and increments \<^verbatim>\<open>revealedCardCount\<close>; if the next thing to
  happen is that the fetch of the content fails (with no cards yet, the answer to its
  request is a failure), or that the texture fails to load, or that the card data has no
  valid image, the flags of every card and the counter are what they were before the
  click. The card is one with both flags off, as every card is that is not revealed; no
  other load for it is in flight, and requests in flight have earlier numbers.
\<close>

theorem failed_flip_restores_reveal_state:
  assumes "\<not> animating w" and "i < length (cardMeshes w)"
    and "\<not> revealed (cardMeshes w ! i)" and "\<not> selected (cardMeshes w ! i)"
    and "revealedCardCount w < MAX_REVEALED_CARDS"
    and "\<forall>p \<in> set (pendingFetches w). fst p < requests w"
    and "\<forall>p \<in> set (pendingTextures w). fst p \<noteq> i"
  shows
    "(cards w = [] \<longrightarrow>
        revealState (run [Click i] w) =
          ((map (\<lambda>c. (revealed c, selected c)) (cardMeshes w))[i := (True, True)],
           revealedCardCount w + 1) \<and>
        (failedAnswer (network w (requests w)
             (fst (getRandomQuery (queries w) (random w) (randomCalls w)))) \<longrightarrow>
           revealState (run [Click i, Response (requests w)] w) = revealState w) \<and>
        (\<not> emptyResult (network w (requests w)
             (fst (getRandomQuery (queries w) (random w) (randomCalls w)))) \<longrightarrow>
           revealState (run [Click i, Response (requests w), TextureFailed i] w) = revealState w)) \<and>
     (cards w \<noteq> [] \<longrightarrow>
        revealState (run [Click i, TextureFailed i] w) = revealState w)"
proof -
  let ?w1 = "(updateCard i (\<lambda>c. c\<lparr>selected := True, revealed := True\<rparr>) w)
               \<lparr>revealedCardCount := revealedCardCount w + 1\<rparr>"
  let ?lbl = "labelFor (revealedCardCount w + 1)"
  let ?c' = "(cardMeshes w ! i)\<lparr>selected := True, revealed := True\<rparr>"
  have fc: "flipCard i w = requestCardContent i ?lbl ?w1"
    by (rule flipCard_accepted[OF assms(1,2,3,5)])
  have cm: "cardMeshes ?w1 = (cardMeshes w)[i := ?c']" by (simp add: updateCard_def)
  have A: "cards w \<noteq> [] \<longrightarrow> revealState (run [Click i, TextureFailed i] w) = revealState w"
  proof
    assume ne: "cards w \<noteq> []"
    let ?w2 = "?w1\<lparr>randomCalls := Suc (randomCalls ?w1)\<rparr>"
    let ?cd = "jsIndex (cards ?w1) (randomIndex (random ?w1 (randomCalls ?w1)) (length (cards ?w1)))"
    have "requestCardContent i ?lbl ?w1 = cardContentFetched i ?lbl ?cd ?w2"
      using ne by (simp add: requestCardContent_def updateCard_def)
    moreover have "revealState (textureSettles False i (cardContentFetched i ?lbl ?cd ?w2)) = revealState w"
      by (rule cardContentFetched_cases[where c' = ?c'])
         (use assms in \<open>simp_all add: updateCard_def\<close>)
    ultimately show "revealState (run [Click i, TextureFailed i] w) = revealState w"
      by (simp add: run_def fc)
  qed
  have B: "cards w = [] \<longrightarrow>
        revealState (run [Click i] w) =
          ((map (\<lambda>c. (revealed c, selected c)) (cardMeshes w))[i := (True, True)],
           revealedCardCount w + 1) \<and>
        (failedAnswer (network w (requests w)
             (fst (getRandomQuery (queries w) (random w) (randomCalls w)))) \<longrightarrow>
           revealState (run [Click i, Response (requests w)] w) = revealState w) \<and>
        (\<not> emptyResult (network w (requests w)
             (fst (getRandomQuery (queries w) (random w) (randomCalls w)))) \<longrightarrow>
           revealState (run [Click i, Response (requests w), TextureFailed i] w) = revealState w)"
  proof
    assume e: "cards w = []"
    obtain q k1 where q: "getRandomQuery (queries w) (random w) (randomCalls w) = (q, k1)"
      by (cases "getRandomQuery (queries w) (random w) (randomCalls w)")
    let ?n = "requests w"
    let ?w2 = "?w1\<lparr>randomCalls := k1, requests := Suc ?n,
                  pendingFetches := pendingFetches w @ [(?n, q, i, ?lbl)]\<rparr>"
    let ?w3 = "?w2\<lparr>pendingFetches := pendingFetches w\<rparr>"
    have rq: "requestCardContent i ?lbl ?w1 = ?w2"
      using e q by (simp add: requestCardContent_def updateCard_def)
    have f: "find (\<lambda>(m, randomQuery, j, lbl). m = ?n) (pendingFetches w @ [(?n, q, i, ?lbl)]) =
             Some (?n, q, i, ?lbl)"
      using assms(6) by (intro find_append_last) auto
    have r: "remove1 (?n, q, i, ?lbl) (pendingFetches w @ [(?n, q, i, ?lbl)]) = pendingFetches w"
      using assms(6) by (intro remove1_append_last) force
    have ra: "responseArrives ?n ?w2 = cardContentResponse ?n q i ?lbl ?w3"
      by (simp add: responseArrives_def f r updateCard_def)
    have cr: "(failedAnswer (network ?w3 ?n q) \<longrightarrow>
            revealState (cardContentResponse ?n q i ?lbl ?w3) = revealState w) \<and>
         (\<not> emptyResult (network ?w3 ?n q) \<longrightarrow>
            revealState (textureSettles False i (cardContentResponse ?n q i ?lbl ?w3)) = revealState w)"
      by (rule cardContentResponse_cases[where c' = ?c'])
         (use assms in \<open>simp_all add: updateCard_def\<close>)
    have nw: "network ?w3 ?n q = network w ?n q" by (simp add: updateCard_def)
    have m: "revealState ?w2 =
          ((map (\<lambda>c. (revealed c, selected c)) (cardMeshes w))[i := (True, True)],
           revealedCardCount w + 1)"
      by (simp add: revealState_def updateCard_def map_update)
    show "revealState (run [Click i] w) =
          ((map (\<lambda>c. (revealed c, selected c)) (cardMeshes w))[i := (True, True)],
           revealedCardCount w + 1) \<and>
        (failedAnswer (network w (requests w)
             (fst (getRandomQuery (queries w) (random w) (randomCalls w)))) \<longrightarrow>
           revealState (run [Click i, Response (requests w)] w) = revealState w) \<and>
        (\<not> emptyResult (network w (requests w)
             (fst (getRandomQuery (queries w) (random w) (randomCalls w)))) \<longrightarrow>
           revealState (run [Click i, Response (requests w), TextureFailed i] w) = revealState w)"
      using cr m unfolding nw by (simp add: run_def fc rq ra q)
  qed
  from A B show ?thesis by simp
qed


theorem failed_flip_restores_reveal_state_witness:
  "revealState (run [Click 0] (newReading (\<lambda>k. 0) (\<lambda>n q. Failed) [] [])) =
     ([(True, True), (False, False), (False, False), (False, False)], 1) \<and>
   revealState (run [Click 0, Response 0] (newReading (\<lambda>k. 0) (\<lambda>n q. Failed) [] [])) =
     ([(False, False), (False, False), (False, False), (False, False)], 0) \<and>
   revealState (run [Click 0, Response 0, TextureFailed 0]
                  (newReading (\<lambda>k. 0) (\<lambda>n q. Failed) [] [])) =
     ([(False, False), (False, False), (False, False), (False, False)], 0) \<and>
   revealState (run [Click 0, TextureFailed 0]
                  (newReading (\<lambda>k. 0) (\<lambda>n q. Failed) []
                     [(\<lparr>blockId = 7, imageDisplayUrl = Some ''u''\<rparr>, 0)])) =
     ([(False, False), (False, False), (False, False), (False, False)], 0)"
  using failed_flip_restores_reveal_state [of "newReading (\<lambda>k. 0) (\<lambda>n q. Failed) [] []" 0]
    failed_flip_restores_reveal_state
      [of "newReading (\<lambda>k. 0) (\<lambda>n q. Failed) []
             [(\<lparr>blockId = 7, imageDisplayUrl = Some ''u''\<rparr>, 0)]" 0]
  by (simp add: newReading_def createCard_def revealState_def MAX_REVEALED_CARDS_def
      failedAnswer_def emptyResult_def)

text \<open>
  C10 fails when the reading is reset between the click and the failure. The flag
  \<^verbatim>\<open>animating\<close> is clear while the content and the texture of a flip load, so a reset is
  accepted then. Cards 0 and 1 are flipped; card 2 is clicked and its texture is loading,
  with the counter at 3; a click on card 3 shows the reset button. Had the texture
  failed now, the counter would be back at 2. Instead the reset button is clicked: the
  three cards marked revealed flip back, and the reaction to \<^verbatim>\<open>Promise.all\<close> sets the counter
  to 0. When the texture of card 2 then fails, the handler decrements the counter to \<open>- 1\<close>.
\<close>

theorem failed_flip_after_reset_counts_below_zero:
  fixes W :: world
  defines "W \<equiv>
    run [Click 0, TextureLoaded 0, Advance 800, Frame,
         Click 1, TextureLoaded 1, Advance 800, Frame, Timeout, Click 2, Click 3]
      (newReading (\<lambda>k. 0) (\<lambda>n q. Failed) [] [(\<lparr>blockId = 7, imageDisplayUrl = Some ''u''\<rparr>, 0)])"
  shows
    "revealState W = ([(True, True), (True, True), (True, True), (False, False)], 3) \<and>
     pendingTextures W = [(2, ''Future'', ''u'')] \<and>
     \<not> animating W \<and> resetContainerVisible W \<and>
     revealState (run [Click 2, Click 3, TextureFailed 2]
        (run [Click 0, TextureLoaded 0, Advance 800, Frame,
              Click 1, TextureLoaded 1, Advance 800, Frame, Timeout]
           (newReading (\<lambda>k. 0) (\<lambda>n q. Failed) []
              [(\<lparr>blockId = 7, imageDisplayUrl = Some ''u''\<rparr>, 0)]))) =
       ([(True, True), (True, True), (False, False), (False, False)], 2) \<and>
     animating (run [ResetClick] W) \<and>
     map fst (timers (run [ResetClick] W)) = [2100, 1600, 1800, 2000] \<and>
     revealState
       (run [ResetClick, Timeout, Advance 200, Frame, Timeout, Advance 200, Frame, Timeout,
             Advance 200, Frame] W) =
       ([(False, False), (False, False), (False, False), (False, False)], 0) \<and>
     flyAwayStarted
       (run [ResetClick, Timeout, Advance 200, Frame, Timeout, Advance 200, Frame, Timeout,
             Advance 200, Frame] W) \<and>
     revealState
       (run [ResetClick, Timeout, Advance 200, Frame, Timeout, Advance 200, Frame, Timeout,
             Advance 200, Frame, TextureFailed 2] W) =
       ([(False, False), (False, False), (False, False), (False, False)], - 1)"
  unfolding W_def
  by (simp add: world_defs reset_defs)

section \<open>The completion branch of a tick\<close>

text \<open>
  A callback that drives a tween either registers one callback of the same tween or runs
  the completion branch; the callbacks of labels and of the reset button register none
  of them. So the tweens counted by \<open>tok\<close> are the same before and after a callback, once
  the callback's own registration is counted.
\<close>

lemma map_filter_append: "List.map_filter f (xs @ ys) = List.map_filter f xs @ List.map_filter f ys"
  by (simp add: List.map_filter_def)

lemma mset_map_filter_tok: "mset (List.map_filter tweenOf ts) = (\<Sum>t\<in>#mset ts. tokOf t)"
  by (induction ts) (auto simp: List.map_filter_def tokOf_def split: option.splits)

lemma tok_updateLabelOpacity: "tok (updateLabelOpacity m s w) = tok w"
  by (simp add: tok_def pendingTweens_def updateLabelOpacity_def Let_def requestAnimationFrame_def
      map_filter_append List.map_filter_def tweenOf_def)

lemma tok_createLabelForCard: "tok (createLabelForCard i str w) = tok w"
proof -
  have a: "\<And>v m. tok (animateLabelAppearance m v) = tok v"
    by (simp add: animateLabelAppearance_def tok_updateLabelOpacity)
  have b: "\<And>v. tok (createArenaLinkIndicator i v) = tok v"
    by (simp add: tok_def pendingTweens_def createArenaLinkIndicator_def Let_def setTimeout_def
        map_filter_append List.map_filter_def tweenOf_def)
  have c: "tok (w\<lparr>materials := materials w @ [0]\<rparr>) = tok w"
    by (simp add: tok_def pendingTweens_def)
  show ?thesis
    by (simp add: createLabelForCard_def Let_def a b c)
qed

lemma tok_flipCompleted: "tok (flipCompleted i lbl w) = tok w + {#FlipTween i#}"
proof -
  have "tok (w\<lparr>animating := False, completedTweens := completedTweens w @ [FlipTween i]\<rparr>) =
        tok w + {#FlipTween i#}"
    by (simp add: tok_def pendingTweens_def)
  then show ?thesis
    by (cases lbl) (simp_all add: flipCompleted_def Let_def tok_createLabelForCard)
qed

lemma tok_updateCard: "tok (updateCard i f w) = tok w"
  by (simp add: tok_def pendingTweens_def updateCard_def)

lemma tok_requestAnimationFrame: "tok (requestAnimationFrame t w) = tok w + tokOf t"
  by (simp add: tok_def pendingTweens_def requestAnimationFrame_def map_filter_append
      List.map_filter_def tokOf_def split: option.splits)

lemma tok_updateCardRotation:
  "tok (updateCardRotation i r st tex lbl tc w) = tok w + {#FlipTween i#}"
  by (simp add: updateCardRotation_def Let_def tok_flipCompleted tok_requestAnimationFrame
      tok_updateCard tokOf_def tweenOf_def)

lemma tok_updateCardPosition:
  "tok (updateCardPosition i sy st w) = tok w + {#EntryTween i#}"
proof -
  have "\<And>v. tok (v\<lparr>completedTweens := completedTweens v @ [EntryTween i]\<rparr>) = tok v + {#EntryTween i#}"
    by (simp add: tok_def pendingTweens_def)
  moreover have "\<And>v. tok (v\<lparr>animating := False\<rparr>) = tok v"
    by (simp add: tok_def pendingTweens_def)
  ultimately show ?thesis
    by (simp add: updateCardPosition_def Let_def tok_requestAnimationFrame tok_updateCard
        tokOf_def tweenOf_def)
qed

lemma tok_resolveFlipBack: "tok (resolveFlipBack w) = tok w"
  by (simp add: resolveFlipBack_def allFlippedBack_def tok_def pendingTweens_def split: option.splits)

lemma tok_resetCardRotation:
  "tok (resetCardRotation i r st w) = tok w + {#FlipBackTween i#}"
proof -
  have "\<And>v u. tok (updateCard i u v\<lparr>completedTweens := completedTweens v @ [FlipBackTween i]\<rparr>) =
          tok v + {#FlipBackTween i#}"
    by (simp add: tok_def pendingTweens_def updateCard_def)
  then show ?thesis
    by (simp add: resetCardRotation_def Let_def tok_requestAnimationFrame tok_updateCard
        tok_resolveFlipBack tokOf_def tweenOf_def)
qed

lemma tok_exec: "tok (exec t w) = tok w + tokOf t"
proof (cases t)
  case (EntryTimeout i)
  then show ?thesis by (simp add: entryTimeout_def tok_updateCardPosition tokOf_def tweenOf_def)
next
  case (UpdateCardPosition i sy st)
  then show ?thesis by (simp add: tok_updateCardPosition tokOf_def tweenOf_def)
next
  case (UpdateCardRotation i r st tex lbl tc)
  then show ?thesis by (simp add: tok_updateCardRotation tokOf_def tweenOf_def)
next
  case (UpdateLabelOpacity m s)
  then show ?thesis by (simp add: tok_updateLabelOpacity tokOf_def tweenOf_def)
next
  case (AnimateLabelAppearance m)
  then show ?thesis
    by (simp add: animateLabelAppearance_def tok_updateLabelOpacity tokOf_def tweenOf_def)
next
  case HighlightResetButton
  then show ?thesis by (simp add: highlightResetButton_def tok_def pendingTweens_def tokOf_def tweenOf_def)
next
  case (ResetCardRotation i r st)
  then show ?thesis by (simp add: tok_resetCardRotation tokOf_def tweenOf_def)
qed

lemma tok_fold_exec: "tok (fold exec ts w) = tok w + (\<Sum>t\<in>#mset ts. tokOf t)"
  by (induction ts arbitrary: w) (simp_all add: tok_exec)

lemma tok_runFrame: "tok (runFrame w) = tok w"
proof -
  have "tok (w\<lparr>frameRequests := []\<rparr>) + mset (List.map_filter tweenOf (frameRequests w)) = tok w"
    by (simp add: tok_def pendingTweens_def List.map_filter_def)
  then show ?thesis
    by (simp add: runFrame_def tok_fold_exec mset_map_filter_tok)
qed

lemma tok_remove_timer:
  assumes "(t, callback) \<in> set (timers w)"
  shows "tok (w\<lparr>timers := remove1 (t, callback) (timers w)\<rparr>) + tokOf callback = tok w"
proof -
  have "mset (remove1 (t, callback) (timers w)) + {#(t, callback)#} = mset (timers w)"
    using assms by simp
  then have "image_mset snd (mset (remove1 (t, callback) (timers w))) + {#callback#} =
             image_mset snd (mset (timers w))"
    by (metis image_mset_add_mset image_mset_union add_mset_add_single image_mset_empty snd_conv)
  then have "(\<Sum>x\<in>#image_mset snd (mset (remove1 (t, callback) (timers w))). tokOf x) + tokOf callback =
             (\<Sum>x\<in>#image_mset snd (mset (timers w)). tokOf x)"
    by (metis (no_types) add.commute sum_mset.add_mset union_mset_add_mset_right add.right_neutral
        image_mset_add_mset)
  then show ?thesis
    by (simp add: tok_def pendingTweens_def mset_map_filter_tok ac_simps)
qed

lemma tok_runTimeout: "tok (runTimeout w) = tok w"
proof (cases "dueTimer w")
  case None
  then show ?thesis by (simp add: runTimeout_def)
next
  case (Some timer)
  obtain t callback where tc: "timer = (t, callback)" by (cases timer)
  from dueTimer_in_timers[OF Some] have "(t, callback) \<in> set (timers w)" by (simp add: tc)
  from tok_remove_timer[OF this] show ?thesis
    using Some by (simp add: runTimeout_def tc tok_exec)
qed

lemma tok_step: "passiveEvent e \<Longrightarrow> tok (step e w) = tok w"
  by (cases e) (simp_all add: passiveEvent_def tok_runFrame tok_runTimeout, simp add: tok_def pendingTweens_def)

lemma tok_run: "list_all passiveEvent es \<Longrightarrow> tok (run es w) = tok w"
  unfolding run_def by (induction es arbitrary: w) (simp_all add: tok_step)

lemma count_tok: "count (tok w) tw = pendingTicks tw w + completions tw w"
  by (simp add: tok_def pendingTicks_def completions_def count_mset count_list_eq_length_filter)

lemma tokens_conserved:
  assumes "list_all passiveEvent es"
  shows "pendingTicks tw (run es w) + completions tw (run es w) = pendingTicks tw w + completions tw w"
  using tok_run[OF assms, of w] count_tok[of w tw] count_tok[of "run es w" tw] by simp

lemma completedTweens_createLabelForCard:
  "completedTweens (createLabelForCard i str w) = completedTweens w"
  by (simp add: createLabelForCard_def Let_def animateLabelAppearance_def
      updateLabelOpacity_def createArenaLinkIndicator_def setTimeout_def requestAnimationFrame_def)

lemma completedTweens_flipCompleted:
  "completedTweens (flipCompleted i lbl w) = completedTweens w @ [FlipTween i]"
  by (cases lbl) (simp_all add: flipCompleted_def Let_def completedTweens_createLabelForCard)

lemma completedTweens_resolveFlipBack: "completedTweens (resolveFlipBack w) = completedTweens w"
  by (simp add: resolveFlipBack_def allFlippedBack_def split: option.splits)

lemma completedTweens_updateCardPosition:
  "completedTweens (updateCardPosition i sy st w) =
     completedTweens w @ (if progress (elapsedSince st w) 600 < 1 then [] else [EntryTween i])"
  by (simp add: updateCardPosition_def Let_def requestAnimationFrame_def updateCard_def)

lemma completedTweens_updateCardRotation:
  "completedTweens (updateCardRotation i r st tex lbl tc w) =
     completedTweens w @ (if progress (elapsedSince st w) 800 < 1 then [] else [FlipTween i])"
  by (simp add: updateCardRotation_def Let_def requestAnimationFrame_def updateCard_def
      completedTweens_flipCompleted)

lemma completedTweens_resetCardRotation:
  "completedTweens (resetCardRotation i r st w) =
     completedTweens w @ (if progress (elapsedSince st w) 600 < 1 then [] else [FlipBackTween i])"
  by (simp add: resetCardRotation_def Let_def requestAnimationFrame_def updateCard_def
      completedTweens_resolveFlipBack)

lemma completions_exec:
  assumes "tweenOf t = Some tw"
  shows "completions tw (exec t w) = completions tw w + (if tickProgress t w < 1 then 0 else 1)"
proof (cases t)
  case (EntryTimeout i)
  then show ?thesis using assms
    by (auto simp add: tweenOf_def tickProgress_def entryTimeout_def completions_def
        completedTweens_updateCardPosition)
next
  case (UpdateCardPosition i sy st)
  then show ?thesis using assms
    by (auto simp add: tweenOf_def tickProgress_def completions_def
        completedTweens_updateCardPosition)
next
  case (UpdateCardRotation i r st tex lbl tc)
  then show ?thesis using assms
    by (auto simp add: tweenOf_def tickProgress_def completions_def
        completedTweens_updateCardRotation)
next
  case (ResetCardRotation i r st)
  then show ?thesis using assms
    by (auto simp add: tweenOf_def tickProgress_def completions_def
        completedTweens_resetCardRotation)
qed (use assms in \<open>simp_all add: tweenOf_def\<close>)

lemma pendingTicks_exec:
  assumes "tweenOf t = Some tw"
  shows "pendingTicks tw (exec t w) = pendingTicks tw w + (if tickProgress t w < 1 then 1 else 0)"
proof -
  have "count (tok (exec t w)) tw = count (tok w) tw + 1"
    using assms by (simp add: tok_exec tokOf_def)
  then show ?thesis
    by (auto simp add: count_tok completions_exec[OF assms] split: if_splits)
qed

lemma now_exec: "now (exec t w) = now w"
proof (cases t)
  case (UpdateCardRotation i r st tex lbl tc)
  have "\<And>v str. now (createLabelForCard i str v) = now v"
    by (simp add: createLabelForCard_def Let_def animateLabelAppearance_def
      updateLabelOpacity_def createArenaLinkIndicator_def setTimeout_def requestAnimationFrame_def)
  then have "\<And>v. now (flipCompleted i lbl v) = now v"
    by (cases lbl) (simp_all add: flipCompleted_def Let_def)
  then show ?thesis using UpdateCardRotation
    by (simp add: updateCardRotation_def Let_def requestAnimationFrame_def updateCard_def)
next
  case (ResetCardRotation i r st)
  have "\<And>v. now (resolveFlipBack v) = now v"
    by (simp add: resolveFlipBack_def allFlippedBack_def split: option.splits)
  then show ?thesis using ResetCardRotation
    by (simp add: resetCardRotation_def Let_def requestAnimationFrame_def updateCard_def)
qed (simp_all add: entryTimeout_def updateCardPosition_def Let_def requestAnimationFrame_def
      updateCard_def updateLabelOpacity_def animateLabelAppearance_def highlightResetButton_def)

lemma completions_mono_exec: "completions tw w \<le> completions tw (exec t w)"
proof (cases t)
  case (EntryTimeout i)
  then show ?thesis
    by (simp add: entryTimeout_def completions_def completedTweens_updateCardPosition)
next
  case (UpdateCardPosition i sy st)
  then show ?thesis by (simp add: completions_def completedTweens_updateCardPosition)
next
  case (UpdateCardRotation i r st tex lbl tc)
  then show ?thesis by (simp add: completions_def completedTweens_updateCardRotation)
next
  case (ResetCardRotation i r st)
  then show ?thesis by (simp add: completions_def completedTweens_resetCardRotation)
qed (simp_all add: completions_def updateLabelOpacity_def animateLabelAppearance_def
      highlightResetButton_def Let_def requestAnimationFrame_def)

lemma fold_exec_mono:
  "completions tw w \<le> completions tw (fold exec ts w) \<and> now (fold exec ts w) = now w"
proof (induction ts arbitrary: w)
  case Nil
  then show ?case by simp
next
  case (Cons t ts)
  from Cons.IH[of "exec t w"] completions_mono_exec[of tw w t] show ?case
    by (simp add: now_exec)
qed

lemma tickProgress_now: "now v = now w \<Longrightarrow> tickProgress t v = tickProgress t w"
  by (simp add: tickProgress_def elapsedSince_def split: task.splits)

lemma frame_completes_due_tick:
  assumes "t \<in> set (frameRequests w)" and "tweenOf t = Some tw" and "\<not> tickProgress t w < 1"
  shows "completions tw w < completions tw (runFrame w)"
proof -
  from assms(1) obtain us vs where s: "frameRequests w = us @ t # vs"
    by (auto simp add: in_set_conv_decomp)
  let ?w0 = "w\<lparr>frameRequests := []\<rparr>"
  let ?v = "fold exec us ?w0"
  from fold_exec_mono[of tw ?w0 us]
  have m1: "completions tw w \<le> completions tw ?v" and n1: "now ?v = now w"
    by (simp_all add: completions_def)
  from assms(3) tickProgress_now[OF n1, of t] have "\<not> tickProgress t ?v < 1" by simp
  with completions_exec[OF assms(2), of ?v]
  have m2: "completions tw (exec t ?v) = completions tw ?v + 1" by simp
  from fold_exec_mono[of tw "exec t ?v" vs]
  have m3: "completions tw (exec t ?v) \<le> completions tw (fold exec vs (exec t ?v))" by simp
  have "runFrame w = fold exec vs (exec t ?v)" by (simp add: runFrame_def s)
  with m1 m2 m3 show ?thesis by simp
qed

text \<open>
  C5. A tween's completion branch runs exactly once, and no tick of the tween is registered
  afterwards. For every tween (the entry of a card, a flip, a flip back) and every run
  of frames, timers and time: the pending callbacks of the tween plus the runs of its
  completion branch stay what they were. So a tween with one pending callback completes
  at most once, and has completed exactly when no callback of it is pending; with none
  pending, as after its completion, the branch does not run again. A tick with
  \<^verbatim>\<open>progress < 1\<close> registers itself once and does not complete; a tick with progress 1
  completes once and registers nothing; and the frame in which a pending tick has
  progress 1 runs that completion.
\<close>

theorem completion_runs_once:
  assumes "list_all passiveEvent es" and "tweenOf t = Some tw"
  shows
    "pendingTicks tw (run es w) + completions tw (run es w) = pendingTicks tw w + completions tw w \<and>
     (pendingTicks tw w = 1 \<longrightarrow>
        completions tw (run es w) \<le> completions tw w + 1 \<and>
        (completions tw (run es w) = completions tw w + 1 \<longleftrightarrow> pendingTicks tw (run es w) = 0)) \<and>
     (pendingTicks tw w = 0 \<longrightarrow>
        completions tw (run es w) = completions tw w \<and> pendingTicks tw (run es w) = 0) \<and>
     (tickProgress t w < 1 \<longrightarrow>
        pendingTicks tw (exec t w) = pendingTicks tw w + 1 \<and>
        completions tw (exec t w) = completions tw w) \<and>
     (\<not> tickProgress t w < 1 \<longrightarrow>
        pendingTicks tw (exec t w) = pendingTicks tw w \<and>
        completions tw (exec t w) = completions tw w + 1) \<and>
     (t \<in> set (frameRequests w) \<and> \<not> tickProgress t w < 1 \<longrightarrow>
        completions tw w < completions tw (runFrame w))"
proof -
  have c: "pendingTicks tw (run es w) + completions tw (run es w) =
           pendingTicks tw w + completions tw w"
    by (rule tokens_conserved[OF assms(1)])
  have m: "completions tw w \<le> completions tw (run es w)"
    unfolding run_def using assms(1)
  proof (induction es arbitrary: w)
    case Nil
    then show ?case by simp
  next
    case (Cons e es)
    from Cons.prems have e: "passiveEvent e" and es: "list_all passiveEvent es" by simp_all
    have "completions tw w \<le> completions tw (step e w)"
    proof (cases e)
      case (Advance dt)
      then show ?thesis by (simp add: completions_def)
    next
      case Frame
      from fold_exec_mono[of tw "w\<lparr>frameRequests := []\<rparr>" "frameRequests w"]
      show ?thesis using Frame by (simp add: runFrame_def completions_def)
    next
      case Timeout
      show ?thesis
      proof (cases "dueTimer w")
        case None
        then show ?thesis using Timeout by (simp add: runTimeout_def)
      next
        case (Some timer)
        obtain d callback where "timer = (d, callback)" by (cases timer)
        with Some completions_mono_exec[of tw "w\<lparr>timers := remove1 (d, callback) (timers w)\<rparr>" callback]
        show ?thesis using Timeout by (simp add: runTimeout_def completions_def)
      qed
    qed (use e in \<open>simp_all add: passiveEvent_def\<close>)
    with Cons.IH[OF es, of "step e w"] show ?case by simp
  qed
  from c m have one: "pendingTicks tw w = 1 \<longrightarrow>
        completions tw (run es w) \<le> completions tw w + 1 \<and>
        (completions tw (run es w) = completions tw w + 1 \<longleftrightarrow> pendingTicks tw (run es w) = 0)"
    by arith
  from c m have zero: "pendingTicks tw w = 0 \<longrightarrow>
        completions tw (run es w) = completions tw w \<and> pendingTicks tw (run es w) = 0"
    by arith
  have tick: "(tickProgress t w < 1 \<longrightarrow>
        pendingTicks tw (exec t w) = pendingTicks tw w + 1 \<and>
        completions tw (exec t w) = completions tw w) \<and>
     (\<not> tickProgress t w < 1 \<longrightarrow>
        pendingTicks tw (exec t w) = pendingTicks tw w \<and>
        completions tw (exec t w) = completions tw w + 1)"
    by (simp add: pendingTicks_exec[OF assms(2)] completions_exec[OF assms(2)])
  have frame: "t \<in> set (frameRequests w) \<and> \<not> tickProgress t w < 1 \<longrightarrow>
        completions tw w < completions tw (runFrame w)"
    using frame_completes_due_tick[OF _ assms(2)] by blast
  from c one zero tick frame show ?thesis by simp
qed

theorem completion_runs_once_witness:
  "pendingTicks (FlipTween 0) (animateCardFlip 0 (newReading (\<lambda>k. 0) (\<lambda>n q. Failed) [] [])) = 1 \<and>
   completions (FlipTween 0) (animateCardFlip 0 (newReading (\<lambda>k. 0) (\<lambda>n q. Failed) [] [])) = 0 \<and>
   pendingTicks (FlipTween 0)
     (run [Advance 800, Frame] (animateCardFlip 0 (newReading (\<lambda>k. 0) (\<lambda>n q. Failed) [] []))) = 0 \<and>
   completions (FlipTween 0)
     (run [Advance 800, Frame] (animateCardFlip 0 (newReading (\<lambda>k. 0) (\<lambda>n q. Failed) [] []))) = 1 \<and>
   completions (FlipTween 0)
     (run [Advance 16, Frame, Timeout, Frame]
        (run [Advance 800, Frame]
           (animateCardFlip 0 (newReading (\<lambda>k. 0) (\<lambda>n q. Failed) [] [])))) = 1"
  using completion_runs_once
      [where w = "animateCardFlip 0 (newReading (\<lambda>k. 0) (\<lambda>n q. Failed) [] [])"
         and es = "[Advance 800, Frame]" and t = "UpdateCardRotation 0 pi 0 None None False"
         and tw = "FlipTween 0"]
    completion_runs_once
      [where w = "run [Advance 800, Frame]
                    (animateCardFlip 0 (newReading (\<lambda>k. 0) (\<lambda>n q. Failed) [] []))"
         and es = "[Advance 16, Frame, Timeout, Frame]"
         and t = "UpdateCardRotation 0 pi 0 None None False" and tw = "FlipTween 0"]
  by (simp add: world_defs passiveEvent_def tweenOf_def pendingTicks_def pendingTweens_def
      completions_def List.map_filter_def tickProgress_def runTimeout_def dueTimer_def)

section \<open>The busy flag\<close>

text \<open>
  While the flip of one card is the only animation, the state of the loop is fixed by
  the clock, the flag, the completions and the one tick of the flip; the callbacks of
  labels and of the reset button leave all of these alone.
\<close>

lemma loopState_updateLabelOpacity:
  "loopState n a cs fl w \<Longrightarrow> loopState n a cs fl (updateLabelOpacity m s w)"
  by (simp add: loopState_def updateLabelOpacity_def Let_def requestAnimationFrame_def quietTask_def)

lemma loopState_exec_quiet:
  "quietTask t \<Longrightarrow> loopState n a cs fl w \<Longrightarrow> loopState n a cs fl (exec t w)"
proof (cases t)
  case (UpdateLabelOpacity m s)
  assume "loopState n a cs fl w"
  then show ?thesis using UpdateLabelOpacity by (simp add: loopState_updateLabelOpacity)
next
  case (AnimateLabelAppearance m)
  assume "loopState n a cs fl w"
  then show ?thesis using AnimateLabelAppearance
    by (simp add: animateLabelAppearance_def loopState_updateLabelOpacity)
next
  case HighlightResetButton
  assume "loopState n a cs fl w"
  then show ?thesis using HighlightResetButton
    by (simp add: highlightResetButton_def loopState_def)
qed (simp_all add: quietTask_def)

lemma loopState_fold_quiet:
  "list_all quietTask ts \<Longrightarrow> loopState n a cs fl w \<Longrightarrow> loopState n a cs fl (fold exec ts w)"
  by (induction ts arbitrary: w) (simp_all add: loopState_exec_quiet)

lemma loopState_createLabelForCard:
  "loopState n a cs fl w \<Longrightarrow> loopState n a cs fl (createLabelForCard i text w)"
proof -
  assume l: "loopState n a cs fl w"
  let ?w0 = "w\<lparr>materials := materials w @ [0]\<rparr>"
  have "loopState n a cs fl ?w0" using l by (simp add: loopState_def)
  then have l1: "loopState n a cs fl (animateLabelAppearance (length (materials w)) ?w0)"
    by (simp add: animateLabelAppearance_def loopState_updateLabelOpacity)
  have "\<And>v. loopState n a cs fl v \<Longrightarrow> loopState n a cs fl (createArenaLinkIndicator i v)"
    by (simp add: createArenaLinkIndicator_def Let_def setTimeout_def loopState_def quietTask_def)
  with l1 show ?thesis by (simp add: createLabelForCard_def Let_def)
qed

lemma loopState_flipCompleted:
  assumes "loopState n a cs fl w"
  shows "loopState n False (cs @ [FlipTween i]) fl (flipCompleted i lbl w)"
proof -
  let ?w1 = "w\<lparr>animating := False, completedTweens := completedTweens w @ [FlipTween i]\<rparr>"
  have l: "loopState n False (cs @ [FlipTween i]) fl ?w1"
    using assms by (simp add: loopState_def)
  show ?thesis
  proof (cases lbl)
    case None
    then show ?thesis using l by (simp add: flipCompleted_def Let_def)
  next
    case (Some str)
    then show ?thesis
      using l loopState_createLabelForCard[OF l, of i str] by (simp add: flipCompleted_def Let_def)
  qed
qed

lemma progress_less_one: "progress (real n - real st) 800 < 1 \<longleftrightarrow> n < st + 800"
  by (auto simp add: progress_def min_def)

lemma loopState_updateCardRotation:
  assumes "loopState n True cs [] w"
  shows "(n < st + 800 \<longrightarrow>
            (\<exists>tc'. loopState n True cs [UpdateCardRotation i r st tex lbl tc']
                     (updateCardRotation i r st tex lbl tc w))) \<and>
         (st + 800 \<le> n \<longrightarrow>
            loopState n False (cs @ [FlipTween i]) [] (updateCardRotation i r st tex lbl tc w))"
proof (intro conjI impI)
  assume lt: "n < st + 800"
  have n: "now w = n" using assms by (simp add: loopState_def)
  from lt have p: "progress (elapsedSince st w) 800 < 1"
    by (simp add: elapsedSince_def n progress_less_one)
  show "\<exists>tc'. loopState n True cs [UpdateCardRotation i r st tex lbl tc']
                     (updateCardRotation i r st tex lbl tc w)"
    using assms p
    by (auto simp add: updateCardRotation_def Let_def requestAnimationFrame_def updateCard_def
        loopState_def quietTask_def)
next
  assume ge: "st + 800 \<le> n"
  have n: "now w = n" using assms by (simp add: loopState_def)
  from ge have p: "\<not> progress (elapsedSince st w) 800 < 1"
    by (simp add: elapsedSince_def n progress_less_one)
  let ?e = "elapsedSince st w"
  let ?w1 = "updateCard i (\<lambda>c. c\<lparr>rotation_x := tweenValue easeInOutQuad r 0 800 ?e\<rparr>) w"
  let ?w2 = "(if (progress ?e 800 \<ge> 0.5 \<and> \<not> tc \<and> tex \<noteq> None)
              then updateCard i (\<lambda>c. c\<lparr>frontMap := tex\<rparr>) ?w1 else ?w1)"
  have l2: "loopState n True cs [] ?w2"
    using assms by (simp add: loopState_def updateCard_def)
  have eq: "updateCardRotation i r st tex lbl tc w = flipCompleted i lbl ?w2"
    using p by (simp add: updateCardRotation_def Let_def)
  show "loopState n False (cs @ [FlipTween i]) [] (updateCardRotation i r st tex lbl tc w)"
    unfolding eq by (rule loopState_flipCompleted[OF l2])
qed


lemma loopState_exec_flip:
  assumes "loopState n True cs [] w"
  shows "(n < st + 800 \<longrightarrow>
            (\<exists>tc'. loopState n True cs [UpdateCardRotation i r st tex lbl tc']
                     (exec (UpdateCardRotation i r st tex lbl tc) w))) \<and>
         (st + 800 \<le> n \<longrightarrow>
            loopState n False (cs @ [FlipTween i]) [] (exec (UpdateCardRotation i r st tex lbl tc) w))"
  using loopState_updateCardRotation[OF assms] by simp

lemma filter_single:
  assumes "filter P xs = [y]"
  shows "\<exists>us vs. xs = us @ y # vs \<and> list_all (\<lambda>u. \<not> P u) us \<and> list_all (\<lambda>u. \<not> P u) vs"
proof -
  from assms obtain us vs where "xs = us @ y # vs" "\<forall>u\<in>set us. \<not> P u" "P y" "[] = filter P vs"
    by (auto simp: filter_eq_Cons_iff)
  moreover from this have "\<forall>u\<in>set vs. \<not> P u" by (metis filter_empty_conv)
  ultimately show ?thesis by (auto simp: list_all_iff)
qed

lemma loopState_runFrame_quiet:
  assumes "loopState n a cs [] w"
  shows "loopState n a cs [] (runFrame w)"
proof -
  from assms have q: "list_all quietTask (frameRequests w)"
    by (simp add: loopState_def filter_empty_conv list_all_iff)
  have "loopState n a cs [] (w\<lparr>frameRequests := []\<rparr>)"
    using assms by (simp add: loopState_def)
  from loopState_fold_quiet[OF q this] show ?thesis by (simp add: runFrame_def)
qed

lemma loopState_runFrame_flip:
  assumes "loopState n True cs [UpdateCardRotation i r st tex lbl tc] w"
  shows "(n < st + 800 \<longrightarrow>
            (\<exists>tc'. loopState n True cs [UpdateCardRotation i r st tex lbl tc'] (runFrame w))) \<and>
         (st + 800 \<le> n \<longrightarrow> loopState n False (cs @ [FlipTween i]) [] (runFrame w))"
proof -
  let ?t = "UpdateCardRotation i r st tex lbl tc"
  from assms have f: "filter (\<lambda>t. \<not> quietTask t) (frameRequests w) = [?t]"
    by (simp add: loopState_def)
  from filter_single[OF f] obtain us vs where
    s: "frameRequests w = us @ ?t # vs" "list_all quietTask us" "list_all quietTask vs"
    by auto
  let ?w0 = "w\<lparr>frameRequests := []\<rparr>"
  have l0: "loopState n True cs [] ?w0" using assms by (simp add: loopState_def)
  have l1: "loopState n True cs [] (fold exec us ?w0)"
    by (rule loopState_fold_quiet[OF s(2) l0])
  have rf: "runFrame w = fold exec vs (exec ?t (fold exec us ?w0))"
    by (simp add: runFrame_def s(1))
  show ?thesis
  proof (intro conjI impI)
    assume "n < st + 800"
    with loopState_exec_flip[OF l1, of st i r tex lbl tc] obtain tc' where
      "loopState n True cs [UpdateCardRotation i r st tex lbl tc'] (exec ?t (fold exec us ?w0))"
      by blast
    from loopState_fold_quiet[OF s(3) this]
    show "\<exists>tc'. loopState n True cs [UpdateCardRotation i r st tex lbl tc'] (runFrame w)"
      unfolding rf by blast
  next
    assume "st + 800 \<le> n"
    with loopState_exec_flip[OF l1, of st i r tex lbl tc]
    have "loopState n False (cs @ [FlipTween i]) [] (exec ?t (fold exec us ?w0))" by blast
    from loopState_fold_quiet[OF s(3) this]
    show "loopState n False (cs @ [FlipTween i]) [] (runFrame w)"
      unfolding rf .
  qed
qed

lemma loopState_runTimeout:
  assumes "loopState n a cs fl w"
  shows "loopState n a cs fl (runTimeout w)"
proof (cases "dueTimer w")
  case None
  then show ?thesis using assms by (simp add: runTimeout_def)
next
  case (Some timer)
  obtain t callback where tc: "timer = (t, callback)" by (cases timer)
  from dueTimer_in_timers[OF Some] assms have q: "quietTask callback"
    by (auto simp: loopState_def list_all_iff tc)
  have "loopState n a cs fl (w\<lparr>timers := remove1 (t, callback) (timers w)\<rparr>)"
    using assms by (auto simp: loopState_def list_all_iff dest: notin_set_remove1)
  from loopState_exec_quiet[OF q this] show ?thesis
    using Some by (simp add: runTimeout_def tc)
qed

lemma loopState_advance:
  "loopState n a cs fl w \<Longrightarrow> loopState (n + dt) a cs fl (w\<lparr>now := now w + dt\<rparr>)"
  by (simp add: loopState_def)

lemma loopState_now: "loopState n a cs fl w \<Longrightarrow> now w = n"
  by (simp add: loopState_def)

lemma loopState_step_quiet:
  assumes "passiveEvent e" and "loopState (now w) a cs [] w"
  shows "loopState (now (step e w)) a cs [] (step e w) \<and> now w \<le> now (step e w)"
proof (cases e)
  case (Advance dt)
  then show ?thesis using loopState_advance[OF assms(2), of dt] by simp
next
  case Frame
  from loopState_runFrame_quiet[OF assms(2)]
  show ?thesis using Frame by (simp add: loopState_now[OF loopState_runFrame_quiet[OF assms(2)]])
next
  case Timeout
  from loopState_runTimeout[OF assms(2)]
  show ?thesis using Timeout by (simp add: loopState_now[OF loopState_runTimeout[OF assms(2)]])
qed (use assms(1) in \<open>simp_all add: passiveEvent_def\<close>)

lemma loopState_run_quiet:
  assumes "list_all passiveEvent es"
  shows "loopState (now w) a cs [] w \<Longrightarrow>
         loopState (now (run es w)) a cs [] (run es w) \<and> now w \<le> now (run es w)"
  using assms
proof (induction es arbitrary: w)
  case Nil
  then show ?case by (simp add: run_def)
next
  case (Cons e es)
  from Cons.prems have e: "passiveEvent e" and es: "list_all passiveEvent es" by simp_all
  from loopState_step_quiet[OF e Cons.prems(1)]
  have s: "loopState (now (step e w)) a cs [] (step e w)" and m: "now w \<le> now (step e w)"
    by simp_all
  from Cons.IH[OF s es] m show ?case by (simp add: run_def)
qed

lemma flipPhase_step:
  assumes "passiveEvent e" and "flipPhase i r st tex lbl cs w"
  shows "flipPhase i r st tex lbl cs (step e w) \<and> now w \<le> now (step e w)"
  using assms(2) unfolding flipPhase_def
proof (elim disjE exE conjE)
  fix tc
  assume l: "loopState (now w) True cs [UpdateCardRotation i r st tex lbl tc] w"
  show "((\<exists>tc. loopState (now (step e w)) True cs [UpdateCardRotation i r st tex lbl tc] (step e w)) \<or>
         (loopState (now (step e w)) False (cs @ [FlipTween i]) [] (step e w) \<and> st + 800 \<le> now (step e w))) \<and>
        now w \<le> now (step e w)"
  proof (cases e)
    case (Advance dt)
    then show ?thesis using loopState_advance[OF l, of dt] by auto
  next
    case Frame
    show ?thesis
    proof (cases "now w < st + 800")
      case True
      with loopState_runFrame_flip[OF l] obtain tc' where
        l': "loopState (now w) True cs [UpdateCardRotation i r st tex lbl tc'] (runFrame w)"
        by blast
      from loopState_now[OF l'] l' show ?thesis using Frame by auto
    next
      case False
      with loopState_runFrame_flip[OF l]
      have l': "loopState (now w) False (cs @ [FlipTween i]) [] (runFrame w)" by simp
      from loopState_now[OF l'] l' False show ?thesis using Frame by auto
    qed
  next
    case Timeout
    from loopState_runTimeout[OF l] have l': "loopState (now w) True cs [UpdateCardRotation i r st tex lbl tc] (runTimeout w)" .
    from loopState_now[OF l'] l' show ?thesis using Timeout by auto
  qed (use assms(1) in \<open>simp_all add: passiveEvent_def\<close>)
next
  assume l: "loopState (now w) False (cs @ [FlipTween i]) [] w" and t: "st + 800 \<le> now w"
  from loopState_step_quiet[OF assms(1) l] t
  show "((\<exists>tc. loopState (now (step e w)) True cs [UpdateCardRotation i r st tex lbl tc] (step e w)) \<or>
         (loopState (now (step e w)) False (cs @ [FlipTween i]) [] (step e w) \<and> st + 800 \<le> now (step e w))) \<and>
        now w \<le> now (step e w)"
    by auto
qed

lemma flipPhase_run:
  assumes "list_all passiveEvent es"
  shows "flipPhase i r st tex lbl cs w \<Longrightarrow>
         flipPhase i r st tex lbl cs (run es w) \<and> now w \<le> now (run es w)"
  using assms
proof (induction es arbitrary: w)
  case Nil
  then show ?case by (simp add: run_def)
next
  case (Cons e es)
  from Cons.prems have e: "passiveEvent e" and es: "list_all passiveEvent es" by simp_all
  from flipPhase_step[OF e Cons.prems(1)]
  have s: "flipPhase i r st tex lbl cs (step e w)" and m: "now w \<le> now (step e w)"
    by simp_all
  from Cons.IH[OF s es] m show ?case by (simp add: run_def)
qed

lemma flipPhase_animateCardFlip:
  assumes "quietQueues w"
  shows "flipPhase i (rotation_x (cardMeshes w ! i)) (now w) (targetTexture (cardMeshes w ! i))
           (label (cardMeshes w ! i)) (completedTweens w) (animateCardFlip i w) \<and>
         now (animateCardFlip i w) = now w"
proof -
  let ?w1 = "w\<lparr>animating := True\<rparr>"
  have l: "loopState (now w) True (completedTweens w) [] ?w1"
    using assms by (simp add: loopState_def quietQueues_def filter_empty_conv list_all_iff)
  from loopState_updateCardRotation[OF l, of "now w" i "rotation_x (cardMeshes w ! i)"
      "targetTexture (cardMeshes w ! i)" "label (cardMeshes w ! i)" False]
  obtain tc' where l': "loopState (now w) True (completedTweens w)
      [UpdateCardRotation i (rotation_x (cardMeshes w ! i)) (now w) (targetTexture (cardMeshes w ! i))
         (label (cardMeshes w ! i)) tc'] (animateCardFlip i w)"
    by (auto simp add: animateCardFlip_def Let_def)
  from loopState_now[OF l'] l' show ?thesis by (auto simp add: flipPhase_def)
qed

lemma flipPhase_frame_completes:
  assumes "flipPhase i r st tex lbl cs w" and "st + 800 \<le> now w"
  shows "loopState (now (runFrame w)) False (cs @ [FlipTween i]) [] (runFrame w)"
  using assms(1) unfolding flipPhase_def
proof (elim disjE exE conjE)
  fix tc
  assume l: "loopState (now w) True cs [UpdateCardRotation i r st tex lbl tc] w"
  with loopState_runFrame_flip[OF l] assms(2)
  have l': "loopState (now w) False (cs @ [FlipTween i]) [] (runFrame w)" by simp
  from loopState_now[OF l'] l' show ?thesis by simp
next
  assume l: "loopState (now w) False (cs @ [FlipTween i]) [] w"
  from loopState_runFrame_quiet[OF l] have l': "loopState (now w) False (cs @ [FlipTween i]) [] (runFrame w)" .
  from loopState_now[OF l'] l' show ?thesis by simp
qed

text \<open>
  C2 fails by a race. flipCard tests the flag, but does not set it: the flag is set by
  animateCardFlip, which runs only when the content and the texture have loaded
  (resetTarotReading, beside it, tests the flag and sets it at once). A click on card 0
  leaves the flag clear, so a click on card 1, 100 ms later, is accepted too. The
  textures load at 500 ms and 600 ms, and both flips animate. The frame at 1300 ms
  completes the flip of card 0 and clears the flag, while the tick of card 1 is still
  pending and its completion branch has not run. A click on card 2 is then accepted: the
  counter goes to 3 and the texture for its label is requested. A click on the reset
  button is accepted as well, with the flip of card 1 in flight: it sets the flag and
  registers the flip back of cards 0 and 1.
\<close>

theorem overlapping_flips_counterexample:
  "\<not> animating (run [Click 0] (newReading (\<lambda>k. 0) (\<lambda>n q. Failed) []
        [(\<lparr>blockId = 7, imageDisplayUrl = Some ''u''\<rparr>, 0)])) \<and>
   revealedCardCount (run [Click 0, Advance 100, Click 1] (newReading (\<lambda>k. 0) (\<lambda>n q. Failed) []
        [(\<lparr>blockId = 7, imageDisplayUrl = Some ''u''\<rparr>, 0)])) = 2 \<and>
   now (run [Click 0, Advance 100, Click 1, Advance 400, TextureLoaded 0, Advance 100,
             TextureLoaded 1, Advance 700, Frame]
          (newReading (\<lambda>k. 0) (\<lambda>n q. Failed) []
             [(\<lparr>blockId = 7, imageDisplayUrl = Some ''u''\<rparr>, 0)])) = 1300 \<and>
   flipInFlight 1
     (run [Click 0, Advance 100, Click 1, Advance 400, TextureLoaded 0, Advance 100,
           TextureLoaded 1, Advance 700, Frame]
        (newReading (\<lambda>k. 0) (\<lambda>n q. Failed) []
           [(\<lparr>blockId = 7, imageDisplayUrl = Some ''u''\<rparr>, 0)])) \<and>
   completions (FlipTween 1)
     (run [Click 0, Advance 100, Click 1, Advance 400, TextureLoaded 0, Advance 100,
           TextureLoaded 1, Advance 700, Frame]
        (newReading (\<lambda>k. 0) (\<lambda>n q. Failed) []
           [(\<lparr>blockId = 7, imageDisplayUrl = Some ''u''\<rparr>, 0)])) = 0 \<and>
   \<not> animating
     (run [Click 0, Advance 100, Click 1, Advance 400, TextureLoaded 0, Advance 100,
           TextureLoaded 1, Advance 700, Frame]
        (newReading (\<lambda>k. 0) (\<lambda>n q. Failed) []
           [(\<lparr>blockId = 7, imageDisplayUrl = Some ''u''\<rparr>, 0)])) \<and>
   revealedCardCount
     (run [Click 0, Advance 100, Click 1, Advance 400, TextureLoaded 0, Advance 100,
           TextureLoaded 1, Advance 700, Frame, Click 2]
        (newReading (\<lambda>k. 0) (\<lambda>n q. Failed) []
           [(\<lparr>blockId = 7, imageDisplayUrl = Some ''u''\<rparr>, 0)])) = 3 \<and>
   pendingTextures
     (run [Click 0, Advance 100, Click 1, Advance 400, TextureLoaded 0, Advance 100,
           TextureLoaded 1, Advance 700, Frame, Click 2]
        (newReading (\<lambda>k. 0) (\<lambda>n q. Failed) []
           [(\<lparr>blockId = 7, imageDisplayUrl = Some ''u''\<rparr>, 0)])) = [(2, ''Future'', ''u'')] \<and>
   animating
     (run [Click 0, Advance 100, Click 1, Advance 400, TextureLoaded 0, Advance 100,
           TextureLoaded 1, Advance 700, Frame, ResetClick]
        (newReading (\<lambda>k. 0) (\<lambda>n q. Failed) []
           [(\<lparr>blockId = 7, imageDisplayUrl = Some ''u''\<rparr>, 0)])) \<and>
   resetPromises
     (run [Click 0, Advance 100, Click 1, Advance 400, TextureLoaded 0, Advance 100,
           TextureLoaded 1, Advance 700, Frame, ResetClick]
        (newReading (\<lambda>k. 0) (\<lambda>n q. Failed) []
           [(\<lparr>blockId = 7, imageDisplayUrl = Some ''u''\<rparr>, 0)])) = Some 2 \<and>
   flipInFlight 1
     (run [Click 0, Advance 100, Click 1, Advance 400, TextureLoaded 0, Advance 100,
           TextureLoaded 1, Advance 700, Frame, ResetClick]
        (newReading (\<lambda>k. 0) (\<lambda>n q. Failed) []
           [(\<lparr>blockId = 7, imageDisplayUrl = Some ''u''\<rparr>, 0)]))"
  by (simp add: world_defs reset_defs flipInFlight_def flipTick_def completions_def)

text \<open>
  With the flip of one card as the only animation the flag does what C2 says. It is set
  when the animation of the flip starts. While it is set, flipCard and resetTarotReading
  return the state unchanged. Under frames, timers and time: the flag is set for the
  800 ms of the tween; it is clear only after the completion branch of the flip has run,
  once, with no tick of the flip pending; the first frame from 800 ms on clears it; and
  with the flag clear a reset sets it again and a click on a card that is not revealed,
  with fewer than three revealed, is accepted.
\<close>

theorem busy_flag_follows_flip:
  fixes w w' :: world and es :: "event list" and i j :: nat
  defines "w' \<equiv> run es (animateCardFlip i w)"
  assumes "quietQueues w" and "list_all passiveEvent es"
  shows
    "animating (animateCardFlip i w) \<and>
     (animating w' \<longrightarrow> flipCard j w' = w' \<and> resetTarotReading w' = w') \<and>
     (now w' < now w + 800 \<longrightarrow> animating w') \<and>
     (\<not> animating w' \<longrightarrow>
        now w + 800 \<le> now w' \<and> \<not> flipInFlight i w' \<and>
        completions (FlipTween i) w' = completions (FlipTween i) w + 1) \<and>
     (\<forall>es1 es2. es = es1 @ Frame # es2 \<and> now w + 800 \<le> now (run es1 (animateCardFlip i w)) \<longrightarrow>
        \<not> animating w') \<and>
     (\<not> animating w' \<longrightarrow> animating (resetTarotReading w')) \<and>
     (\<not> animating w' \<and> j < length (cardMeshes w') \<and> \<not> revealed (cardMeshes w' ! j) \<and>
      revealedCardCount w' < MAX_REVEALED_CARDS \<longrightarrow>
        flipCard j w' =
          requestCardContent j (labelFor (revealedCardCount w' + 1))
            ((updateCard j (\<lambda>c. c\<lparr>selected := True, revealed := True\<rparr>) w')
               \<lparr>revealedCardCount := revealedCardCount w' + 1\<rparr>))"
proof -
  let ?r = "rotation_x (cardMeshes w ! i)"
  let ?tex = "targetTexture (cardMeshes w ! i)"
  let ?lbl = "label (cardMeshes w ! i)"
  let ?cs = "completedTweens w"
  let ?w1 = "animateCardFlip i w"
  from flipPhase_animateCardFlip[OF assms(2), of i]
  have p1: "flipPhase i ?r (now w) ?tex ?lbl ?cs ?w1" and n1: "now ?w1 = now w" by simp_all
  from flipPhase_run[OF assms(3) p1]
  have p: "flipPhase i ?r (now w) ?tex ?lbl ?cs w'" by (simp add: w'_def)
  have a: "animating ?w1"
    using p1 by (auto simp add: flipPhase_def loopState_def n1)
  have b: "animating w' \<longrightarrow> flipCard j w' = w' \<and> resetTarotReading w' = w'"
    by (simp add: flipCard_def resetTarotReading_def)
  have c: "now w' < now w + 800 \<longrightarrow> animating w'"
    using p by (auto simp add: flipPhase_def loopState_def)
  have d: "\<not> animating w' \<longrightarrow>
        now w + 800 \<le> now w' \<and> \<not> flipInFlight i w' \<and>
        completions (FlipTween i) w' = completions (FlipTween i) w + 1"
  proof
    assume "\<not> animating w'"
    with p have l: "loopState (now w') False (?cs @ [FlipTween i]) [] w'" and t: "now w + 800 \<le> now w'"
      by (auto simp add: flipPhase_def loopState_def)
    from l have "list_all quietTask (frameRequests w')"
      by (simp add: loopState_def filter_empty_conv list_all_iff)
    then have "\<not> flipInFlight i w'"
      by (auto simp add: flipInFlight_def list_ex_iff list_all_iff flipTick_def quietTask_def
          split: task.splits)
    moreover from l have "completions (FlipTween i) w' = completions (FlipTween i) w + 1"
      by (simp add: loopState_def completions_def)
    ultimately show "now w + 800 \<le> now w' \<and> \<not> flipInFlight i w' \<and>
        completions (FlipTween i) w' = completions (FlipTween i) w + 1"
      using t by simp
  qed
  have e: "\<forall>es1 es2. es = es1 @ Frame # es2 \<and> now w + 800 \<le> now (run es1 ?w1) \<longrightarrow> \<not> animating w'"
  proof (intro allI impI, elim conjE)
    fix es1 es2
    assume es: "es = es1 @ Frame # es2" and t: "now w + 800 \<le> now (run es1 ?w1)"
    from assms(3) es have q1: "list_all passiveEvent es1" and q2: "list_all passiveEvent es2"
      by simp_all
    from flipPhase_run[OF q1 p1] have "flipPhase i ?r (now w) ?tex ?lbl ?cs (run es1 ?w1)" by simp
    from flipPhase_frame_completes[OF this t]
    have "loopState (now (runFrame (run es1 ?w1))) False (?cs @ [FlipTween i]) [] (runFrame (run es1 ?w1))" .
    from loopState_run_quiet[OF q2 this]
    have "loopState (now (run es2 (runFrame (run es1 ?w1)))) False (?cs @ [FlipTween i]) []
            (run es2 (runFrame (run es1 ?w1)))" by simp
    moreover have "w' = run es2 (runFrame (run es1 ?w1))"
      by (simp add: w'_def es run_def)
    ultimately show "\<not> animating w'" by (simp add: loopState_def)
  qed
  have f: "\<not> animating w' \<longrightarrow> animating (resetTarotReading w')"
  proof
    assume na: "\<not> animating w'"
    have k: "\<And>g d xs v. animating (fold (\<lambda>i. setTimeout (g i) (d i)) xs v) = animating v"
      subgoal for g d xs v by (induction xs arbitrary: v) (simp_all add: setTimeout_def)
      done
    show "animating (resetTarotReading w')"
      using na by (simp add: resetTarotReading_def Let_def allFlippedBack_def k)
  qed
  have g: "\<not> animating w' \<and> j < length (cardMeshes w') \<and> \<not> revealed (cardMeshes w' ! j) \<and>
      revealedCardCount w' < MAX_REVEALED_CARDS \<longrightarrow>
        flipCard j w' =
          requestCardContent j (labelFor (revealedCardCount w' + 1))
            ((updateCard j (\<lambda>c. c\<lparr>selected := True, revealed := True\<rparr>) w')
               \<lparr>revealedCardCount := revealedCardCount w' + 1\<rparr>)"
    by (simp add: flipCard_def Let_def updateCard_def)
  from a b c d e f g show ?thesis by simp
qed

theorem busy_flag_follows_flip_witness:
  "animating (run [Advance 100] (animateCardFlip 0 (newReading (\<lambda>k. 0) (\<lambda>n q. Failed) [] []))) \<and>
   flipCard 1 (run [Advance 100] (animateCardFlip 0 (newReading (\<lambda>k. 0) (\<lambda>n q. Failed) [] []))) =
     run [Advance 100] (animateCardFlip 0 (newReading (\<lambda>k. 0) (\<lambda>n q. Failed) [] [])) \<and>
   resetTarotReading (run [Advance 100] (animateCardFlip 0 (newReading (\<lambda>k. 0) (\<lambda>n q. Failed) [] []))) =
     run [Advance 100] (animateCardFlip 0 (newReading (\<lambda>k. 0) (\<lambda>n q. Failed) [] [])) \<and>
   \<not> animating (run [Advance 800, Frame]
                  (animateCardFlip 0 (newReading (\<lambda>k. 0) (\<lambda>n q. Failed) [] []))) \<and>
   completions (FlipTween 0)
     (run [Advance 800, Frame] (animateCardFlip 0 (newReading (\<lambda>k. 0) (\<lambda>n q. Failed) [] []))) = 1 \<and>
   revealedCardCount
     (flipCard 1 (run [Advance 800, Frame]
                    (animateCardFlip 0 (newReading (\<lambda>k. 0) (\<lambda>n q. Failed) [] [])))) = 1"
  using busy_flag_follows_flip
      [where w = "newReading (\<lambda>k. 0) (\<lambda>n q. Failed) [] []" and es = "[Advance 100]"
         and i = 0 and j = 1]
    busy_flag_follows_flip
      [where w = "newReading (\<lambda>k. 0) (\<lambda>n q. Failed) [] []" and es = "[Advance 800, Frame]"
         and i = 0 and j = 1]
  by (simp add: world_defs quietQueues_def passiveEvent_def completions_def getRandomQuery_def)

section \<open>Staggered starts\<close>

text \<open>
  animateCardsEntry, with four cards as createCards makes them and timers that run when
  they are due: the callback of card \<open>i\<close> takes \<^verbatim>\<open>startTime\<close> when it runs, at \<open>i * 150\<close>, and the
  card is still at its start position then. The last card's tween completes, and the flag
  is cleared, at \<open>3 * 150 + 600\<close> and not a millisecond earlier.
\<close>

lemma entry_tweens_start_at_timeout:
  fixes W :: world
  defines "W \<equiv> animateCardsEntry (newReading (\<lambda>k. 0) (\<lambda>n q. Failed) [] [])"
  shows
    "animating W \<and>
     timers W = [(0, EntryTimeout 0), (150, EntryTimeout 1), (300, EntryTimeout 2),
                 (450, EntryTimeout 3)] \<and>
     frameRequests
       (run [Timeout, Advance 150, Frame, Timeout, Advance 150, Frame, Timeout, Advance 150, Frame,
             Timeout] W) =
       [UpdateCardPosition 0 5 0, UpdateCardPosition 1 5 150, UpdateCardPosition 2 5 300,
        UpdateCardPosition 3 5 450] \<and>
     position_y
       (cardMeshes (run [Timeout, Advance 150, Frame, Timeout, Advance 150, Frame, Timeout,
                         Advance 150, Frame, Timeout] W) ! 3) = 5 \<and>
     animating
       (run [Timeout, Advance 150, Frame, Timeout, Advance 150, Frame, Timeout, Advance 150, Frame,
             Timeout, Advance 599, Frame] W) \<and>
     completedTweens
       (run [Timeout, Advance 150, Frame, Timeout, Advance 150, Frame, Timeout, Advance 150, Frame,
             Timeout, Advance 599, Frame] W) = [EntryTween 0, EntryTween 1, EntryTween 2] \<and>
     \<not> animating
       (run [Timeout, Advance 150, Frame, Timeout, Advance 150, Frame, Timeout, Advance 150, Frame,
             Timeout, Advance 599, Frame, Advance 1, Frame] W) \<and>
     now (run [Timeout, Advance 150, Frame, Timeout, Advance 150, Frame, Timeout, Advance 150, Frame,
               Timeout, Advance 599, Frame, Advance 1, Frame] W) = 1050"
  unfolding W_def
  by (simp add: world_defs reset_defs entry_defs)

text \<open>
  C3 fails for resetTarotReading. Three cards are flipped, one after the other; at
  3000 ms nothing but label callbacks is pending and the reset button is clicked. The
  timers of the flip back are due at 3000, 3200 and 3400, but each callback carries the
  \<^verbatim>\<open>startTime\<close> 3000 of the click. With the timers run when they are due and a frame every
  200 ms: at 3400 the flip back of cards 0 and 1 is at \<open>7 * pi / 9\<close> and card 2 has not
  moved; the first tick of card 2, at 3400, puts it at \<open>7 * pi / 9\<close> as well, two thirds into
  its tween; and the frame at 3600 completes all three tweens and runs the reaction to
  \<^verbatim>\<open>Promise.all\<close>, 600 ms after the click and not \<open>2 * 200 + 600\<close>.
\<close>

theorem reset_tweens_start_at_click:
  fixes W :: world
  defines "W \<equiv>
    run [Click 0, TextureLoaded 0, Advance 800, Frame,
         Click 1, TextureLoaded 1, Advance 800, Frame, Timeout,
         Click 2, TextureLoaded 2, Advance 800, Frame, Timeout,
         Advance 600, Timeout, Timeout, Frame]
      (newReading (\<lambda>k. 0) (\<lambda>n q. Failed) [] [(\<lparr>blockId = 7, imageDisplayUrl = Some ''u''\<rparr>, 0)])"
  shows
    "now W = 3000 \<and> \<not> animating W \<and> timers W = [] \<and>
     revealState W = ([(True, True), (True, True), (True, True), (False, False)], 3) \<and>
     map rotation_x (cardMeshes W) = [0, 0, 0, pi] \<and>
     timers (run [ResetClick] W) =
       [(3000, ResetCardRotation 0 0 3000), (3200, ResetCardRotation 1 0 3000),
        (3400, ResetCardRotation 2 0 3000)] \<and>
     map rotation_x
       (cardMeshes (run [ResetClick, Timeout, Advance 200, Frame, Timeout, Advance 200, Frame] W)) =
       [7 * pi / 9, 7 * pi / 9, 0, pi] \<and>
     map rotation_x
       (cardMeshes (run [ResetClick, Timeout, Advance 200, Frame, Timeout, Advance 200, Frame,
                         Timeout] W)) =
       [7 * pi / 9, 7 * pi / 9, 7 * pi / 9, pi] \<and>
     \<not> flyAwayStarted
         (run [ResetClick, Timeout, Advance 200, Frame, Timeout, Advance 200, Frame,
               Timeout, Advance 200] W) \<and>
     flyAwayStarted
       (run [ResetClick, Timeout, Advance 200, Frame, Timeout, Advance 200, Frame,
             Timeout, Advance 200, Frame] W) \<and>
     now (run [ResetClick, Timeout, Advance 200, Frame, Timeout, Advance 200, Frame,
               Timeout, Advance 200, Frame] W) = 3600 \<and>
     completedTweens
       (run [ResetClick, Timeout, Advance 200, Frame, Timeout, Advance 200, Frame,
             Timeout, Advance 200, Frame] W) =
       [FlipTween 0, FlipTween 1, FlipTween 2, FlipBackTween 0, FlipBackTween 1, FlipBackTween 2]"
  unfolding W_def
  by (simp add: world_defs reset_defs power2_eq_square numeral_2_eq_2 field_simps)

section \<open>The opacity of a label\<close>

text \<open>
  Bounds of sine and cosine by their Taylor polynomials, each from the one before by the
  sign of a derivative, and from them and \<open>sin (pi / 6) = 1 / 2\<close> four digits of \<open>pi\<close>.
\<close>

lemma cos_ge_taylor2:
  fixes x :: real
  assumes "0 \<le> x"
  shows "1 - x\<^sup>2 / 2 \<le> cos x"
proof -
  have "(\<lambda>y. cos y - (1 - y\<^sup>2 / 2)) 0 \<le> (\<lambda>y. cos y - (1 - y\<^sup>2 / 2)) x"
  proof (rule DERIV_nonneg_imp_nondecreasing[OF assms])
    fix y :: real
    assume "0 \<le> y" "y \<le> x"
    have "DERIV (\<lambda>y. cos y - (1 - y\<^sup>2 / 2)) y :> y - sin y"
      by (auto intro!: derivative_eq_intros)
    moreover have "0 \<le> y - sin y" using sin_x_le_x[OF \<open>0 \<le> y\<close>] by simp
    ultimately show "\<exists>d. DERIV (\<lambda>y. cos y - (1 - y\<^sup>2 / 2)) y :> d \<and> 0 \<le> d" by blast
  qed
  then show ?thesis by simp
qed

lemma sin_ge_taylor3:
  fixes x :: real
  assumes "0 \<le> x"
  shows "x - x ^ 3 / 6 \<le> sin x"
proof -
  have "(\<lambda>y. sin y - (y - y ^ 3 / 6)) 0 \<le> (\<lambda>y. sin y - (y - y ^ 3 / 6)) x"
  proof (rule DERIV_nonneg_imp_nondecreasing[OF assms])
    fix y :: real
    assume "0 \<le> y" "y \<le> x"
    have "DERIV (\<lambda>y. sin y - (y - y ^ 3 / 6)) y :> cos y - (1 - y\<^sup>2 / 2)"
      by (auto intro!: derivative_eq_intros)
    moreover have "0 \<le> cos y - (1 - y\<^sup>2 / 2)" using cos_ge_taylor2[OF \<open>0 \<le> y\<close>] by simp
    ultimately show "\<exists>d. DERIV (\<lambda>y. sin y - (y - y ^ 3 / 6)) y :> d \<and> 0 \<le> d" by blast
  qed
  then show ?thesis by simp
qed

lemma cos_le_taylor4:
  fixes x :: real
  assumes "0 \<le> x"
  shows "cos x \<le> 1 - x\<^sup>2 / 2 + x ^ 4 / 24"
proof -
  have "(\<lambda>y. 1 - y\<^sup>2 / 2 + y ^ 4 / 24 - cos y) 0 \<le> (\<lambda>y. 1 - y\<^sup>2 / 2 + y ^ 4 / 24 - cos y) x"
  proof (rule DERIV_nonneg_imp_nondecreasing[OF assms])
    fix y :: real
    assume "0 \<le> y" "y \<le> x"
    have "DERIV (\<lambda>y. 1 - y\<^sup>2 / 2 + y ^ 4 / 24 - cos y) y :> sin y - (y - y ^ 3 / 6)"
      by (auto intro!: derivative_eq_intros)
    moreover have "0 \<le> sin y - (y - y ^ 3 / 6)" using sin_ge_taylor3[OF \<open>0 \<le> y\<close>] by simp
    ultimately show "\<exists>d. DERIV (\<lambda>y. 1 - y\<^sup>2 / 2 + y ^ 4 / 24 - cos y) y :> d \<and> 0 \<le> d"
      by blast
  qed
  then show ?thesis by simp
qed

lemma sin_le_taylor5:
  fixes x :: real
  assumes "0 \<le> x"
  shows "sin x \<le> x - x ^ 3 / 6 + x ^ 5 / 120"
proof -
  have "(\<lambda>y. y - y ^ 3 / 6 + y ^ 5 / 120 - sin y) 0 \<le> (\<lambda>y. y - y ^ 3 / 6 + y ^ 5 / 120 - sin y) x"
  proof (rule DERIV_nonneg_imp_nondecreasing[OF assms])
    fix y :: real
    assume "0 \<le> y" "y \<le> x"
    have "DERIV (\<lambda>y. y - y ^ 3 / 6 + y ^ 5 / 120 - sin y) y :> 1 - y\<^sup>2 / 2 + y ^ 4 / 24 - cos y"
      by (auto intro!: derivative_eq_intros)
    moreover have "0 \<le> 1 - y\<^sup>2 / 2 + y ^ 4 / 24 - cos y" using cos_le_taylor4[OF \<open>0 \<le> y\<close>] by simp
    ultimately show "\<exists>d. DERIV (\<lambda>y. y - y ^ 3 / 6 + y ^ 5 / 120 - sin y) y :> d \<and> 0 \<le> d"
      by blast
  qed
  then show ?thesis by simp
qed

lemma cos_ge_taylor6:
  fixes x :: real
  assumes "0 \<le> x"
  shows "1 - x\<^sup>2 / 2 + x ^ 4 / 24 - x ^ 6 / 720 \<le> cos x"
proof -
  have "(\<lambda>y. cos y - (1 - y\<^sup>2 / 2 + y ^ 4 / 24 - y ^ 6 / 720)) 0 \<le>
        (\<lambda>y. cos y - (1 - y\<^sup>2 / 2 + y ^ 4 / 24 - y ^ 6 / 720)) x"
  proof (rule DERIV_nonneg_imp_nondecreasing[OF assms])
    fix y :: real
    assume "0 \<le> y" "y \<le> x"
    have "DERIV (\<lambda>y. cos y - (1 - y\<^sup>2 / 2 + y ^ 4 / 24 - y ^ 6 / 720)) y :>
            y - y ^ 3 / 6 + y ^ 5 / 120 - sin y"
      by (auto intro!: derivative_eq_intros)
    moreover have "0 \<le> y - y ^ 3 / 6 + y ^ 5 / 120 - sin y" using sin_le_taylor5[OF \<open>0 \<le> y\<close>] by simp
    ultimately show "\<exists>d. DERIV (\<lambda>y. cos y - (1 - y\<^sup>2 / 2 + y ^ 4 / 24 - y ^ 6 / 720)) y :> d \<and> 0 \<le> d"
      by blast
  qed
  then show ?thesis by simp
qed

lemma sin_ge_taylor7:
  fixes x :: real
  assumes "0 \<le> x"
  shows "x - x ^ 3 / 6 + x ^ 5 / 120 - x ^ 7 / 5040 \<le> sin x"
proof -
  have "(\<lambda>y. sin y - (y - y ^ 3 / 6 + y ^ 5 / 120 - y ^ 7 / 5040)) 0 \<le>
        (\<lambda>y. sin y - (y - y ^ 3 / 6 + y ^ 5 / 120 - y ^ 7 / 5040)) x"
  proof (rule DERIV_nonneg_imp_nondecreasing[OF assms])
    fix y :: real
    assume "0 \<le> y" "y \<le> x"
    have "DERIV (\<lambda>y. sin y - (y - y ^ 3 / 6 + y ^ 5 / 120 - y ^ 7 / 5040)) y :>
            cos y - (1 - y\<^sup>2 / 2 + y ^ 4 / 24 - y ^ 6 / 720)"
      by (auto intro!: derivative_eq_intros)
    moreover have "0 \<le> cos y - (1 - y\<^sup>2 / 2 + y ^ 4 / 24 - y ^ 6 / 720)"
      using cos_ge_taylor6[OF \<open>0 \<le> y\<close>] by simp
    ultimately show "\<exists>d. DERIV (\<lambda>y. sin y - (y - y ^ 3 / 6 + y ^ 5 / 120 - y ^ 7 / 5040)) y :> d \<and> 0 \<le> d"
      by blast
  qed
  then show ?thesis by simp
qed

lemma pi_lower: "3.1415 \<le> pi"
proof (rule ccontr)
  assume "\<not> 3.1415 \<le> pi"
  then have lt: "pi / 6 < 3.1415 / 6" by simp
  have "sin (pi / 6) \<le> sin (3.1415 / 6 :: real)"
  proof (rule sin_monotone_2pi_le)
    show "- (pi / 2) \<le> pi / 6" by simp
    show "pi / 6 \<le> 3.1415 / 6" using lt by simp
    show "3.1415 / 6 \<le> pi / 2" using pi_ge_two by simp
  qed
  moreover have "sin (3.1415 / 6 :: real) \<le> 3.1415 / 6 - (3.1415 / 6) ^ 3 / 6 + (3.1415 / 6) ^ 5 / 120"
    by (rule sin_le_taylor5) simp
  moreover have "(3.1415 / 6 - (3.1415 / 6) ^ 3 / 6 + (3.1415 / 6) ^ 5 / 120 :: real) < 1 / 2"
    by (simp add: power_divide)
  ultimately show False by (simp add: sin_30)
qed

lemma pi_upper: "pi \<le> 3.1416"
proof (rule ccontr)
  assume "\<not> pi \<le> 3.1416"
  then have lt: "3.1416 / 6 < pi / 6" by simp
  have "sin (3.1416 / 6 :: real) \<le> sin (pi / 6)"
  proof (rule sin_monotone_2pi_le)
    show "- (pi / 2) \<le> 3.1416 / 6" using pi_ge_zero by (simp del: pi_ge_zero) 
    show "3.1416 / 6 \<le> pi / 6" using lt by simp
    show "pi / 6 \<le> pi / 2" by simp
  qed
  moreover have "(3.1416 / 6) - (3.1416 / 6) ^ 3 / 6 + (3.1416 / 6) ^ 5 / 120 - (3.1416 / 6) ^ 7 / 5040
      \<le> sin (3.1416 / 6 :: real)"
    by (rule sin_ge_taylor7) simp
  moreover have "(1 / 2 :: real) < (3.1416 / 6) - (3.1416 / 6) ^ 3 / 6 + (3.1416 / 6) ^ 5 / 120 - (3.1416 / 6) ^ 7 / 5040"
    by (simp add: power_divide)
  ultimately show False by (simp add: sin_30)
qed

text \<open>
  With \<open>u = 1 - t\<close> the opacity is \<open>cos (pi * u / 2) + 0.2 * sin (10 * t) * u\<close>, so it is at most
  1 when the oscillation is at most \<open>1 - cos (pi * u / 2)\<close>, which is about \<open>1.23 * u\<^sup>2\<close>. The
  sine is negative for \<open>10 * t\<close> between \<open>3 * pi\<close> and 10; below \<open>3 * pi\<close> it is the sine of
  \<open>3 * pi - 10 * t\<close>, which is bounded by its argument for \<open>u\<close> up to 0.148, by its value at the
  end of an interval for \<open>u\<close> up to 0.165, and by 1 from there on.
\<close>

lemma one_minus_cos_lower:
  fixes u b :: real
  assumes "0 \<le> u" and "u \<le> b"
  shows "(3.1415\<^sup>2 / 8 - 3.1416 ^ 4 * b\<^sup>2 / 384) * u\<^sup>2 \<le> 1 - cos (pi * u / 2)"
proof -
  define x where "x = pi * u / 2"
  define U where "U = u\<^sup>2"
  define X where "X = x\<^sup>2"
  have x0: "0 \<le> x" using assms(1) by (simp add: x_def)
  have c: "cos x \<le> 1 - X / 2 + X\<^sup>2 / 24"
    using cos_le_taylor4[OF x0] by (simp add: X_def)
  have XU: "X = pi\<^sup>2 * U / 4"
    by (simp add: X_def x_def U_def power_mult_distrib power_divide)
  have U0: "0 \<le> U" by (simp add: U_def)
  have Ub: "U \<le> b\<^sup>2" unfolding U_def using assms by (intro power_mono)
  have p2l: "3.1415\<^sup>2 \<le> pi\<^sup>2" using pi_lower by (intro power_mono) simp_all
  have p2h: "pi\<^sup>2 \<le> 3.1416\<^sup>2" using pi_upper by (intro power_mono) simp_all
  have Xl: "3.1415\<^sup>2 * U / 4 \<le> X"
    using mult_right_mono[OF p2l U0] by (simp add: XU)
  have Xh: "X \<le> 3.1416\<^sup>2 * U / 4"
    using mult_right_mono[OF p2h U0] by (simp add: XU)
  have X0: "0 \<le> X" by (simp add: X_def)
  have "X\<^sup>2 \<le> (3.1416\<^sup>2 * U / 4)\<^sup>2" using Xh X0 by (intro power_mono)
  also have "\<dots> = (3.1416 ^ 4 / 16) * (U * U)"
    by (simp add: power2_eq_square power_divide)
  also have "\<dots> \<le> (3.1416 ^ 4 / 16) * (b\<^sup>2 * U)"
    using mult_right_mono[OF Ub U0] by (intro mult_left_mono) simp_all
  finally have X2: "X\<^sup>2 \<le> (3.1416 ^ 4 / 16) * (b\<^sup>2 * U)" .
  have "(3.1415\<^sup>2 / 8 - 3.1416 ^ 4 * b\<^sup>2 / 384) * U =
        (3.1415\<^sup>2 * U / 4) / 2 - ((3.1416 ^ 4 / 16) * (b\<^sup>2 * U)) / 24"
    by (simp add: algebra_simps)
  also have "\<dots> \<le> X / 2 - X\<^sup>2 / 24" using Xl X2 by linarith
  also have "\<dots> \<le> 1 - cos x" using c by linarith
  finally show ?thesis by (simp add: U_def x_def)
qed

lemma sin_10t_nonpos:
  fixes t :: real
  assumes "3 * pi \<le> t * 10" and "t \<le> 1"
  shows "sin (t * 10) \<le> 0"
proof -
  have "sin (t * 10) = sin ((t * 10 - 2 * pi) + 2 * pi)" by simp
  also have "\<dots> = sin (t * 10 - 2 * pi)" by (rule sin_periodic)
  finally have e: "sin (t * 10) = sin (t * 10 - 2 * pi)" .
  have "pi \<le> t * 10 - 2 * pi" using assms(1) by simp
  moreover have "t * 10 - 2 * pi < 2 * pi" using assms(2) pi_lower by simp
  ultimately show ?thesis unfolding e by (rule sin_le_zero)
qed

lemma sin_10t_reflect: "sin (t * 10) = sin (3 * pi - t * 10)" for t :: real
proof -
  have "sin (3 * pi - t * 10) = sin ((pi - t * 10) + 2 * pi)" by (simp add: algebra_simps)
  also have "\<dots> = sin (pi - t * 10)" by (rule sin_periodic)
  also have "\<dots> = sin (t * 10)" by (rule sin_pi_minus)
  finally show ?thesis by simp
qed

lemma labelEasedProgress_cos: "labelEasedProgress t = cos (pi * (1 - t) / 2)"
proof -
  have "sin (t * pi / 2) = cos (pi / 2 - t * pi / 2)" using sin_cos_eq[of "t * pi / 2"] by simp
  also have "pi / 2 - t * pi / 2 = pi * (1 - t) / 2" by (simp add: algebra_simps)
  finally show ?thesis by (simp add: labelEasedProgress_def)
qed

lemma oscillation_near:
  fixes u th :: real
  assumes "0 \<le> u" and "u \<le> 0.148" and "0 \<le> th" and "th \<le> 10 * u - 0.5752"
  shows "0.2 * sin th * u \<le> 1 - cos (pi * u / 2)"
proof -
  have "sin th \<le> th" by (rule sin_x_le_x[OF assms(3)])
  with assms(4) have "sin th \<le> 10 * u - 0.5752" by simp
  then have a: "sin th * u \<le> (10 * u - 0.5752) * u" using assms(1) by (rule mult_right_mono)
  have "(1.228 :: real) \<le> 3.1415\<^sup>2 / 8 - 3.1416 ^ 4 * 0.148\<^sup>2 / 384"
    by (simp add: power_divide power2_eq_square)
  then have "1.228 * u\<^sup>2 \<le> (3.1415\<^sup>2 / 8 - 3.1416 ^ 4 * 0.148\<^sup>2 / 384) * u\<^sup>2"
    by (rule mult_right_mono) simp
  also have "\<dots> \<le> 1 - cos (pi * u / 2)" by (rule one_minus_cos_lower[OF assms(1,2)])
  finally have k: "1.228 * (u * u) \<le> 1 - cos (pi * u / 2)" by (simp add: power2_eq_square)
  have b: "u * u \<le> 0.148 * u" using assms(2,1) by (rule mult_right_mono)
  have "0.2 * sin th * u = 0.2 * (sin th * u)" by simp
  also have "\<dots> \<le> 0.2 * ((10 * u - 0.5752) * u)" using a by simp
  also have "\<dots> = 2 * (u * u) - 0.11504 * u" by (simp add: algebra_simps)
  also have "\<dots> \<le> 1.228 * (u * u)" using b assms(1) by simp
  also note k
  finally show ?thesis .
qed

lemma oscillation_mid:
  fixes a b s u th :: real
  assumes "0 \<le> a" and "a \<le> u" and "u \<le> b" and "0 \<le> th" and "th \<le> 10 * u - 0.5752"
    and "10 * b - 0.5752 \<le> 1.5"
    and "(10 * b - 0.5752) - (10 * b - 0.5752) ^ 3 / 6 + (10 * b - 0.5752) ^ 5 / 120 \<le> s"
    and "0 \<le> k" and "k \<le> 3.1415\<^sup>2 / 8 - 3.1416 ^ 4 * b\<^sup>2 / 384"
    and "0.2 * s * b \<le> k * a\<^sup>2"
  shows "0.2 * sin th * u \<le> 1 - cos (pi * u / 2)"
proof -
  define th1 where "th1 = 10 * b - 0.5752"
  have u0: "0 \<le> u" using assms(1,2) by simp
  have t1: "th \<le> th1" using assms(3,5) by (simp add: th1_def)
  have t2: "th1 \<le> pi / 2" using assms(6) pi_lower by (simp add: th1_def)
  have t3: "- (pi / 2) \<le> th" using assms(4) pi_ge_zero by linarith
  have "sin th \<le> sin th1" by (rule sin_monotone_2pi_le[OF t3 t1 t2])
  also have "sin th1 \<le> th1 - th1 ^ 3 / 6 + th1 ^ 5 / 120"
    using assms(4) t1 by (intro sin_le_taylor5) simp
  also have "\<dots> \<le> s" using assms(7) by (simp add: th1_def)
  finally have s: "sin th \<le> s" .
  have "0 \<le> sin th1" using assms(4) t1 t2 pi_ge_zero by (intro sin_ge_zero) linarith+
  with \<open>sin th1 \<le> th1 - th1 ^ 3 / 6 + th1 ^ 5 / 120\<close> \<open>th1 - th1 ^ 3 / 6 + th1 ^ 5 / 120 \<le> s\<close>
  have s0: "0 \<le> s" by linarith
  have "0.2 * sin th * u = 0.2 * (sin th * u)" by simp
  also have "\<dots> \<le> 0.2 * (s * u)" using mult_right_mono[OF s u0] by simp
  also have "\<dots> \<le> 0.2 * (s * b)" using mult_left_mono[OF assms(3) s0] by simp
  also have "\<dots> \<le> k * a\<^sup>2" using assms(10) by simp
  also have "\<dots> \<le> k * u\<^sup>2"
    using assms(1,2,8) by (intro mult_left_mono power_mono)
  also have "\<dots> \<le> (3.1415\<^sup>2 / 8 - 3.1416 ^ 4 * b\<^sup>2 / 384) * u\<^sup>2"
    using assms(9) by (rule mult_right_mono) simp
  also have "\<dots> \<le> 1 - cos (pi * u / 2)" by (rule one_minus_cos_lower[OF u0 assms(3)])
  finally show ?thesis .
qed

lemma oscillation_far:
  fixes a b u S :: real
  assumes "0 \<le> a" and "a \<le> u" and "u \<le> b" and "S \<le> 1"
    and "0 \<le> k" and "k \<le> 3.1415\<^sup>2 / 8 - 3.1416 ^ 4 * b\<^sup>2 / 384"
    and "0.2 \<le> k * a"
  shows "0.2 * S * u \<le> 1 - cos (pi * u / 2)"
proof -
  have u0: "0 \<le> u" using assms(1,2) by simp
  have "0.2 * S * u = 0.2 * (S * u)" by simp
  also have "\<dots> \<le> 0.2 * (1 * u)" using mult_right_mono[OF assms(4) u0] by simp
  also have "\<dots> \<le> (k * a) * u" using mult_right_mono[OF assms(7) u0] by simp
  also have "\<dots> \<le> (k * u) * u"
    using assms(2,5) u0 by (intro mult_right_mono mult_left_mono)
  also have "\<dots> = k * u\<^sup>2" by (simp add: power2_eq_square)
  also have "\<dots> \<le> (3.1415\<^sup>2 / 8 - 3.1416 ^ 4 * b\<^sup>2 / 384) * u\<^sup>2"
    using assms(6) by (rule mult_right_mono) simp
  also have "\<dots> \<le> 1 - cos (pi * u / 2)" by (rule one_minus_cos_lower[OF u0 assms(3)])
  finally show ?thesis .
qed

lemma labelOpacity_le_one:
  assumes "0 \<le> t" and "t \<le> 1"
  shows "labelOpacity t \<le> 1"
proof -
  define u where "u = 1 - t"
  have u: "0 \<le> u" "u \<le> 1" using assms by (simp_all add: u_def)
  have f: "labelOpacity t = cos (pi * u / 2) + 0.2 * sin (t * 10) * u"
    by (simp add: labelOpacity_def labelEasedProgress_cos labelOscillation_def u_def)
  have "0.2 * sin (t * 10) * u \<le> 1 - cos (pi * u / 2)"
  proof (cases "3 * pi \<le> t * 10")
    case True
    then have "sin (t * 10) \<le> 0" using assms(2) by (rule sin_10t_nonpos)
    then have "sin (t * 10) * u \<le> 0" using u(1) by (simp add: mult_nonpos_nonneg)
    then have "0.2 * sin (t * 10) * u \<le> 0" by simp
    also have "0 \<le> 1 - cos (pi * u / 2)" by simp
    finally show ?thesis .
  next
    case False
    define th where "th = 3 * pi - t * 10"
    have th0: "0 \<le> th" using False by (simp add: th_def)
    have S: "sin (t * 10) = sin th" unfolding th_def by (rule sin_10t_reflect)
    have thu: "th \<le> 10 * u - 0.5752" using pi_upper by (simp add: th_def u_def)
    consider (B) "u \<le> 0.148" | (C1) "0.148 \<le> u" "u \<le> 0.156" | (C2) "0.156 \<le> u" "u \<le> 0.165"
      | (D1) "0.165 \<le> u" "u \<le> 0.21" | (D2) "0.21 \<le> u" by linarith
    then show ?thesis
    proof cases
      case B
      show ?thesis unfolding S by (rule oscillation_near[OF u(1) B th0 thu])
    next
      case C1
      show ?thesis unfolding S
        by (rule oscillation_mid[where a = "0.148" and b = "0.156" and s = "0.8334" and k = "1.227",
              OF _ C1 th0 thu])
           (simp_all add: power_divide power2_eq_square)
    next
      case C2
      show ?thesis unfolding S
        by (rule oscillation_mid[where a = "0.156" and b = "0.165" and s = "0.8799" and k = "1.226",
              OF _ C2 th0 thu])
           (simp_all add: power_divide power2_eq_square)
    next
      case D1
      show ?thesis
        by (rule oscillation_far[where a = "0.165" and b = "0.21" and k = "1.222", OF _ D1])
           (simp_all add: power_divide power2_eq_square)
    next
      case D2
      show ?thesis
        by (rule oscillation_far[where a = "0.21" and b = "1" and k = "0.979", OF _ D2 u(2)])
           (simp_all add: power_divide power2_eq_square)
    qed
  qed
  then show ?thesis unfolding f by linarith
qed

lemma labelOpacity_ge_zero:
  assumes "0 \<le> t" and "t \<le> 1"
  shows "0 \<le> labelOpacity t"
proof (cases "t \<le> 0.2")
  case True
  have "0 \<le> sin (t * pi / 2)"
  proof (rule sin_ge_zero)
    show "0 \<le> t * pi / 2" using assms(1) by simp
    have "t * pi \<le> 1 * pi" using assms(2) by (intro mult_right_mono) simp_all
    then show "t * pi / 2 \<le> pi" by simp
  qed
  moreover have "0 \<le> sin (t * 10)"
    using assms(1) True pi_ge_two by (intro sin_ge_zero) linarith+
  then have "0 \<le> 0.2 * sin (t * 10) * (1 - t)" using assms(2) by simp
  ultimately show ?thesis
    by (simp add: labelOpacity_def labelEasedProgress_def labelOscillation_def)
next
  case False
  have tp: "0.2 * 3.1415 \<le> t * pi"
    using False pi_lower by (intro mult_mono) simp_all
  have "sin (0.3 :: real) \<le> sin (t * pi / 2)"
  proof (rule sin_monotone_2pi_le)
    show "- (pi / 2) \<le> (0.3 :: real)" using pi_ge_zero by linarith
    show "0.3 \<le> t * pi / 2" using tp by simp
    have "t * pi \<le> 1 * pi" using assms(2) by (intro mult_right_mono) simp_all
    then show "t * pi / 2 \<le> pi / 2" by simp
  qed
  moreover have "(0.3 :: real) - 0.3 ^ 3 / 6 \<le> sin 0.3" by (rule sin_ge_taylor3) simp
  ultimately have e: "0.29 \<le> sin (t * pi / 2)" by (simp add: power_divide)
  define P where "P = sin (t * 10) * (1 - t)"
  have "- 1 * (1 - t) \<le> sin (t * 10) * (1 - t)"
    using assms(2) by (intro mult_right_mono) simp_all
  then have "- (1 - t) \<le> P" by (simp add: P_def)
  with False have p: "- 0.8 \<le> P" by simp
  have "labelOpacity t = sin (t * pi / 2) + 0.2 * P"
    by (simp add: labelOpacity_def labelEasedProgress_def labelOscillation_def P_def)
  with e p show ?thesis by simp
qed

text \<open>
  C8, as stated, fails: there is no \<open>t\<close> strictly between 0 and 1 at which the value of the
  easing \<open>sin (t * pi / 2) + 0.2 * sin (10 * t) * (1 - t)\<close> is below 0 or above 1.
\<close>

theorem label_opacity_never_out_of_bounds:
  "\<not> (\<exists>t. 0 < t \<and> t < 1 \<and> (labelOpacity t < 0 \<or> 1 < labelOpacity t))"
proof
  assume "\<exists>t. 0 < t \<and> t < 1 \<and> (labelOpacity t < 0 \<or> 1 < labelOpacity t)"
  then obtain t where t: "0 < t" "t < 1" and out: "labelOpacity t < 0 \<or> 1 < labelOpacity t"
    by blast
  from t have "0 \<le> labelOpacity t" and "labelOpacity t \<le> 1"
    by (simp_all add: labelOpacity_ge_zero labelOpacity_le_one)
  with out show False by linarith
qed

text \<open>
  C8, amended. The easing stays within the opacity bounds: its value is between 0 and 1
  for every progress between 0 and 1. updateLabelOpacity, the consumer, does not clamp: a
  tick writes the value of the easing at its progress to the material's opacity as it is,
  and for a tick that runs at or after \<^verbatim>\<open>startTime\<close> the opacity written is between 0 and 1.
\<close>

theorem label_opacity_written_unclamped:
  assumes "material < length (materials w)" and "startTime \<le> now w"
  shows
    "materials (updateLabelOpacity material startTime w) ! material =
       labelOpacity (progress (elapsedSince startTime w) 1000) \<and>
     0 \<le> materials (updateLabelOpacity material startTime w) ! material \<and>
     materials (updateLabelOpacity material startTime w) ! material \<le> 1 \<and>
     (\<forall>t. 0 \<le> t \<and> t \<le> 1 \<longrightarrow> 0 \<le> labelOpacity t \<and> labelOpacity t \<le> 1)"
proof -
  let ?p = "progress (elapsedSince startTime w) 1000"
  have w: "materials (updateLabelOpacity material startTime w) ! material = labelOpacity ?p"
    using assms(1) by (simp add: updateLabelOpacity_def Let_def requestAnimationFrame_def)
  have "0 \<le> elapsedSince startTime w" using assms(2) by (simp add: elapsedSince_def)
  then have p: "0 \<le> ?p" "?p \<le> 1" by (simp_all add: progress_def)
  from labelOpacity_ge_zero[OF p] labelOpacity_le_one[OF p] w
  show ?thesis by (simp add: labelOpacity_ge_zero labelOpacity_le_one)
qed

theorem label_opacity_written_unclamped_witness:
  "materials (updateLabelOpacity 0 0
                ((newReading (\<lambda>k. 0) (\<lambda>n q. Failed) [] [])\<lparr>now := 500, materials := [0]\<rparr>)) ! 0 =
     labelOpacity (1 / 2) \<and>
   0 \<le> labelOpacity (1 / 2) \<and> labelOpacity (1 / 2) \<le> 1"
  using label_opacity_written_unclamped
      [where material = 0 and startTime = 0
         and w = "(newReading (\<lambda>k. 0) (\<lambda>n q. Failed) [] [])\<lparr>now := 500, materials := [0]\<rparr>"]
  by (simp add: newReading_def elapsedSince_def progress_def)

end
